theory Spec2Isabelle
  imports Main "HOL-Library.Word"
begin

section \<open>POSIX paths, as the middleware uses them\<close>

text \<open>
  \<^verbatim>\<open>index.ts\<close> calls four functions of the \<^verbatim>\<open>path-browserify\<close> package:
  \<^verbatim>\<open>Path.isAbsolute\<close>, \<^verbatim>\<open>Path.join\<close>, \<^verbatim>\<open>Path.resolve\<close> and \<^verbatim>\<open>Path.dirname\<close>.
  The package is the POSIX half of Node's \<^verbatim>\<open>path\<close> module. A JavaScript string is a
  \<^typ>\<open>string\<close> here; the separator is the slash.

  \<^verbatim>\<open>normalizeStringPosix\<close> walks the characters of a path and keeps a result string;
  what it computes is determined by the segments between slashes: an empty segment and
  \<^verbatim>\<open>.\<close> are dropped, \<^verbatim>\<open>..\<close> removes the last kept segment unless there is none or it is
  \<^verbatim>\<open>..\<close> itself (then it is kept when \<^verbatim>\<open>allowAboveRoot\<close> holds and dropped otherwise),
  and any other segment is kept. The model works on the segments.
\<close>

fun split_slash :: "string \<Rightarrow> string list" where
  "split_slash [] = [[]]"
| "split_slash (c # cs) =
     (if c = CHR ''/'' then [] # split_slash cs
      else (case split_slash cs of
              [] \<Rightarrow> [[c]]
            | s # ss \<Rightarrow> (c # s) # ss))"

fun join_slash :: "string list \<Rightarrow> string" where
  "join_slash [] = []"
| "join_slash [s] = s"
| "join_slash (s # t # ss) = s @ ''/'' @ join_slash (t # ss)"

text \<open>The kept segments are held last-first in \<open>res\<close>.\<close>

fun normalizeSegments :: "bool \<Rightarrow> string list \<Rightarrow> string list \<Rightarrow> string list" where
  "normalizeSegments allowAboveRoot res [] = rev res"
| "normalizeSegments allowAboveRoot res (s # ss) =
     (if s = [] \<or> s = ''.'' then normalizeSegments allowAboveRoot res ss
      else if s = ''..'' then
        (case res of
           [] \<Rightarrow> normalizeSegments allowAboveRoot
                   (if allowAboveRoot then [''..''] else []) ss
         | r # rs \<Rightarrow>
             if r \<noteq> ''..'' then normalizeSegments allowAboveRoot rs ss
             else normalizeSegments allowAboveRoot
                    (if allowAboveRoot then ''..'' # r # rs else r # rs) ss)
      else normalizeSegments allowAboveRoot (s # res) ss)"

definition normalizeStringPosix :: "string \<Rightarrow> bool \<Rightarrow> string" where
  "normalizeStringPosix path allowAboveRoot =
     join_slash (normalizeSegments allowAboveRoot [] (split_slash path))"

definition path_isAbsolute :: "string \<Rightarrow> bool" where
  "path_isAbsolute path = (case path of [] \<Rightarrow> False | c # _ \<Rightarrow> c = CHR ''/'')"

definition path_normalize :: "string \<Rightarrow> string" where
  "path_normalize path =
     (if path = [] then ''.''
      else
        let isAbsolute = path_isAbsolute path;
            trailingSeparator = (last path = CHR ''/'');
            p = normalizeStringPosix path (\<not> isAbsolute);
            p1 = (if p = [] \<and> \<not> isAbsolute then ''.'' else p);
            p2 = (if p1 \<noteq> [] \<and> trailingSeparator then p1 @ ''/'' else p1)
        in if isAbsolute then ''/'' @ p2 else p2)"

text \<open>\<^verbatim>\<open>Path.join(a, b)\<close>: the non-empty arguments, joined by a slash and normalised.\<close>

definition path_join :: "string \<Rightarrow> string \<Rightarrow> string" where
  "path_join a b =
     (case filter (\<lambda>arg. arg \<noteq> []) [a, b] of
        [] \<Rightarrow> ''.''
      | parts \<Rightarrow> path_normalize (join_slash parts))"

text \<open>
  \<^verbatim>\<open>Path.resolve(a, b)\<close> goes through its arguments from the last to the first, and then
  through the working directory of the process, until the path it has built is absolute.
\<close>

fun resolve_args :: "string list \<Rightarrow> string \<Rightarrow> string \<times> bool" where
  "resolve_args [] resolvedPath = (resolvedPath, False)"
| "resolve_args (path # rest) resolvedPath =
     (if path = [] then resolve_args rest resolvedPath
      else if path_isAbsolute path then (path @ ''/'' @ resolvedPath, True)
      else resolve_args rest (path @ ''/'' @ resolvedPath))"

definition path_resolve :: "string \<Rightarrow> string \<Rightarrow> string \<Rightarrow> string" where
  "path_resolve cwd a b =
     (case resolve_args [b, a, cwd] [] of
        (resolvedPath, resolvedAbsolute) \<Rightarrow>
          let p = normalizeStringPosix resolvedPath (\<not> resolvedAbsolute)
          in if resolvedAbsolute then (if p \<noteq> [] then ''/'' @ p else ''/'')
             else if p \<noteq> [] then p else ''.'')"

text \<open>
  \<^verbatim>\<open>Path.dirname\<close> scans the path from its end down to index 1: it passes the trailing
  slashes, then the last segment, and cuts the path at the slash before that segment.
\<close>

definition path_dirname :: "string \<Rightarrow> string" where
  "path_dirname path =
     (case path of
        [] \<Rightarrow> ''.''
      | c # cs \<Rightarrow>
          let hasRoot = (c = CHR ''/'');
              upto_segment = dropWhile (\<lambda>x. x = CHR ''/'') (rev cs);
              upto_slash = dropWhile (\<lambda>x. x \<noteq> CHR ''/'') upto_segment;
              end = length upto_slash
          in if upto_slash = [] then (if hasRoot then ''/'' else ''.'')
             else if hasRoot \<and> end = 1 then ''//''
             else take end path)"

section \<open>The host: module loader and file system\<close>

text \<open>
  The transform loads an import map with the expression
  \<^verbatim>\<open>await import(externalImportMapAbsolutePath, { assert: { type: "json" } })\<close>
  and its own comment calls the result a JSON module. A dynamic import goes through the
  module loader of the runtime: a specifier that was imported successfully before yields
  the module loaded then (the language requires this of every host), and only a
  specifier that is not registered yet is read from the file system and parsed.

  The host state holds what this needs:
  \<^item> \<open>cwd\<close>, the working directory of the process (\<^verbatim>\<open>Path.resolve\<close> falls back on it);
  \<^item> \<open>fetch\<close>, the file system as the loader sees it now: reading the file at a path and
    parsing it as JSON gives the parsed value or fails;
  \<^item> \<open>registry\<close>, the modules loaded so far, by path;
  \<^item> \<open>log\<close>, the calls made so far, so that a statement can say what was evaluated
    and which files were read.
  The type \<open>'j\<close> is the type of parsed JSON values.
\<close>

datatype error =
    ReferenceLoadFailure
  | ReferenceParseFailure
  | StreamFailure
  | Error string

datatype event =
    ShouldRunCalled
  | ImportCalled string
  | FileRead string

record 'j host =
  cwd :: string
  fetch :: "string \<Rightarrow> error + 'j"
  registry :: "string \<rightharpoonup> 'j"
  log :: "event list"

definition import_json :: "string \<Rightarrow> 'j host \<Rightarrow> (error + 'j) \<times> 'j host" where
  "import_json path h =
     (case registry h path of
        Some v \<Rightarrow> (Inr v, h\<lparr>log := log h @ [ImportCalled path]\<rparr>)
      | None \<Rightarrow>
          (case fetch h path of
             Inl e \<Rightarrow> (Inl e, h\<lparr>log := log h @ [ImportCalled path, FileRead path]\<rparr>)
           | Inr v \<Rightarrow>
               (Inr v, h\<lparr>registry := (registry h)(path \<mapsto> v),
                         log := log h @ [ImportCalled path, FileRead path]\<rparr>)))"

section \<open>The element handler of \<^verbatim>\<open>transformResponse\<close>\<close>

text \<open>
  The rewriter hands the callback a handle \<^verbatim>\<open>el\<close> on the start tag of an element. The
  handle is modelled by the tag name, the attributes in source order (the rewriter keeps
  an attribute that is written twice), and the markup of the inner content that the
  callback has set (\<open>None\<close> as long as it has set none).
\<close>

record element =
  tagName :: string
  attributes :: "(string \<times> string) list"
  innerContent :: "string option"

definition getAttribute :: "element \<Rightarrow> string \<Rightarrow> string option" where
  "getAttribute el name = map_of (attributes el) name"

text \<open>\<^verbatim>\<open>el.removeAttribute(name)\<close> removes the first attribute of that name.\<close>

fun remove_first :: "string \<Rightarrow> (string \<times> string) list \<Rightarrow> (string \<times> string) list" where
  "remove_first name [] = []"
| "remove_first name ((k, v) # as) =
     (if k = name then as else (k, v) # remove_first name as)"

definition removeAttribute :: "string \<Rightarrow> element \<Rightarrow> element" where
  "removeAttribute name el = el\<lparr>attributes := remove_first name (attributes el)\<rparr>"

text \<open>
  \<^verbatim>\<open>el.setInnerContent(content)\<close>, called as in line 113 without the \<^verbatim>\<open>html\<close> option, takes
  the content as text: the rewriter writes the characters \<^verbatim>\<open>&\<close>, \<^verbatim>\<open><\<close> and \<^verbatim>\<open>>\<close> of it as
  entities.
\<close>

fun escape_text :: "string \<Rightarrow> string" where
  "escape_text [] = []"
| "escape_text (c # cs) =
     (if c = CHR ''&'' then ''&amp;''
      else if c = CHR ''<'' then ''&lt;''
      else if c = CHR ''>'' then ''&gt;''
      else [c]) @ escape_text cs"

definition setInnerContent :: "string \<Rightarrow> element \<Rightarrow> element" where
  "setInnerContent content el = el\<lparr>innerContent := Some (escape_text content)\<rparr>"

text \<open>Lines 86 to 99: the path of the external import map in the file system.\<close>

definition externalImportMapAbsolutePath :: "string \<Rightarrow> string \<Rightarrow> string \<Rightarrow> string \<Rightarrow> string" where
  "externalImportMapAbsolutePath wd servedDirectoryAbsolutePath htmlFilePath srcAttribute =
     (if path_isAbsolute srcAttribute
      then path_join servedDirectoryAbsolutePath srcAttribute
      else path_resolve wd (path_dirname htmlFilePath) srcAttribute)"

text \<open>
  Lines 64 to 114. \<open>stringify\<close> is \<^verbatim>\<open>JSON.stringify\<close>. An early \<^verbatim>\<open>return\<close> leaves the
  handle as it was; a failing import throws, which is the \<open>Inl\<close> result.
\<close>

definition element_handler ::
  "('j \<Rightarrow> string) \<Rightarrow> string \<Rightarrow> string \<Rightarrow> element \<Rightarrow> 'j host \<Rightarrow> (error + element) \<times> 'j host" where
  "element_handler stringify servedDirectoryAbsolutePath htmlFilePath el h =
     (if tagName el \<noteq> ''script'' then (Inr el, h)
      else
        (case getAttribute el ''type'' of
           None \<Rightarrow> (Inr el, h)
         | Some typeAttribute \<Rightarrow>
             (if typeAttribute \<noteq> ''importmap'' then (Inr el, h)
              else
                (case getAttribute el ''src'' of
                   None \<Rightarrow> (Inr el, h)
                 | Some srcAttribute \<Rightarrow>
                     (case import_json
                             (externalImportMapAbsolutePath (cwd h)
                                servedDirectoryAbsolutePath htmlFilePath srcAttribute) h of
                        (Inl e, h') \<Rightarrow> (Inl e, h')
                      | (Inr externalImportMapModule, h') \<Rightarrow>
                          (Inr (setInnerContent (stringify externalImportMapModule)
                                  (removeAttribute ''src'' el)), h'))))))"

section \<open>The rewriter\<close>

text \<open>
  \<^verbatim>\<open>HTMLRewriter\<close> is the runtime's. Of a document the model keeps its elements, with tag
  name, attributes and children, and everything else (text, comments, doctype) as
  \<open>Text\<close>, which holds the markup as it is written. \<^verbatim>\<open>htmlRewriter.on("*", { element })\<close>
  calls the handler on every element in document order; an element whose inner content
  the handler has set gets that markup as its only child, and what it contained before
  is gone; an element the handler threw on ends the transform with that error.
\<close>

datatype node =
    Text string
  | Element string "(string \<times> string) list" "node list"

fun rewrite_node ::
      "(element \<Rightarrow> 'h \<Rightarrow> (error + element) \<times> 'h) \<Rightarrow> node \<Rightarrow> 'h \<Rightarrow> (error + node) \<times> 'h"
  and rewrite_nodes ::
      "(element \<Rightarrow> 'h \<Rightarrow> (error + element) \<times> 'h) \<Rightarrow> node list \<Rightarrow> 'h \<Rightarrow> (error + node list) \<times> 'h"
where
  "rewrite_node handler (Text s) h = (Inr (Text s), h)"
| "rewrite_node handler (Element t as cs) h =
     (case handler \<lparr>tagName = t, attributes = as, innerContent = None\<rparr> h of
        (Inl e, h1) \<Rightarrow> (Inl e, h1)
      | (Inr el, h1) \<Rightarrow>
          (case innerContent el of
             Some content \<Rightarrow> (Inr (Element (tagName el) (attributes el) [Text content]), h1)
           | None \<Rightarrow>
               (case rewrite_nodes handler cs h1 of
                  (Inl e, h2) \<Rightarrow> (Inl e, h2)
                | (Inr cs', h2) \<Rightarrow> (Inr (Element (tagName el) (attributes el) cs'), h2))))"
| "rewrite_nodes handler [] h = (Inr [], h)"
| "rewrite_nodes handler (n # ns) h =
     (case rewrite_node handler n h of
        (Inl e, h1) \<Rightarrow> (Inl e, h1)
      | (Inr n', h1) \<Rightarrow>
          (case rewrite_nodes handler ns h1 of
             (Inl e, h2) \<Rightarrow> (Inl e, h2)
           | (Inr ns', h2) \<Rightarrow> (Inr (n' # ns'), h2)))"

text \<open>
  What the runtime provides besides the loader: the UTF-8 codec (\<^verbatim>\<open>new Response(text)\<close>
  encodes, \<^verbatim>\<open>blob().text()\<close> and \<^verbatim>\<open>Buffer.toString("utf8")\<close> decode), the parser and the
  serialiser of the rewriter, and \<^verbatim>\<open>JSON.stringify\<close>.
\<close>

type_synonym bytes = "8 word list"

record 'j engine =
  utf8_encode :: "string \<Rightarrow> bytes"
  utf8_decode :: "bytes \<Rightarrow> string"
  parse_html :: "bytes \<Rightarrow> node list"
  serialize_html :: "node list \<Rightarrow> bytes"
  json_stringify :: "'j \<Rightarrow> string"

text \<open>Lines 56 to 118. A \<^verbatim>\<open>Response\<close> is the bytes of its body.\<close>

definition transformResponse ::
  "'j engine \<Rightarrow> string \<Rightarrow> string \<Rightarrow> bytes \<Rightarrow> 'j host \<Rightarrow> (error + bytes) \<times> 'j host" where
  "transformResponse eng servedDirectoryAbsolutePath htmlFilePath initialResponse h =
     (case rewrite_nodes
             (element_handler (json_stringify eng) servedDirectoryAbsolutePath htmlFilePath)
             (parse_html eng initialResponse) h of
        (Inl e, h') \<Rightarrow> (Inl e, h')
      | (Inr doc, h') \<Rightarrow> (Inr (serialize_html eng doc), h'))"

section \<open>The middleware\<close>

text \<open>
  A response body is one of the values that the dispatch tells apart: a string, a
  \<^verbatim>\<open>Uint8Array\<close>, a \<^verbatim>\<open>ReadStream\<close> of the file system, or anything else, of which only the
  name of the constructor is read (\<open>None\<close> for \<^verbatim>\<open>null\<close> and \<^verbatim>\<open>undefined\<close>).

  A \<^verbatim>\<open>ReadStream\<close> is an object with a state. A stream that has not been read yet holds
  the chunks of the \<^verbatim>\<open>data\<close> events it will emit and, when it will end with an \<^verbatim>\<open>error\<close>
  event instead of \<^verbatim>\<open>end\<close>, the error. Reading it to its end consumes it: a consumed
  stream emits nothing any more.
\<close>

record read_stream =
  chunks :: "bytes list"
  failure :: "error option"
  consumed :: bool

definition drained :: "read_stream \<Rightarrow> read_stream" where
  "drained stream = \<lparr>chunks = [], failure = None, consumed = True\<rparr>"

datatype body =
    BString string
  | BUint8Array bytes
  | BReadStream read_stream
  | BOther "string option"

text \<open>
  Of the Koa context the middleware reads the URL of the request, and reads and writes
  the type and the body of the response. \<open>response_type\<close> is the media type of the
  response as \<^verbatim>\<open>response.is\<close> compares it: in lower case, without parameters, empty when
  there is none. Assigning a string to the body of a response that has a type leaves
  the type; the length and the status, which the assignment also sets, are not modelled.
\<close>

record ctx =
  request_url :: string
  response_type :: string
  response_body :: body

definition response_is :: "ctx \<Rightarrow> string \<Rightarrow> bool" where
  "response_is c t = (response_type c = t)"

record options =
  servedDirectoryAbsolutePath :: string
  shouldRun :: "(ctx \<Rightarrow> bool) option"
  getFilePathOfRequestUrl :: "string \<Rightarrow> string"

text \<open>
  Lines 38 to 45. The promise resolves on the \<^verbatim>\<open>end\<close> event and rejects on the \<^verbatim>\<open>error\<close>
  event; on a consumed stream neither event comes and the promise never settles, which
  is the result \<open>None\<close>. After the call the stream is \<^term>\<open>drained stream\<close>; the caller
  holds the stream and records that.
\<close>

definition readStreamToString :: "'j engine \<Rightarrow> read_stream \<Rightarrow> (error + string) option" where
  "readStreamToString eng stream =
     (if consumed stream then None
      else Some (case failure stream of
                   Some err \<Rightarrow> Inl err
                 | None \<Rightarrow> Inr (utf8_decode eng (concat (chunks stream)))))"

text \<open>
  A middleware call returns, throws, or waits for ever, and in each case the context
  and the host are in some state then: the result is the outcome with the two states.

  The three supported branches of the dispatch end in the same three statements: read
  the transformed response as text, assign it to the body, assign the type. A transform
  that threw leaves them unexecuted.
\<close>

datatype outcome = Returned | Threw error | Pending

type_synonym 'j result = "outcome \<times> ctx \<times> 'j host"

definition install_transformed ::
  "'j engine \<Rightarrow> ctx \<Rightarrow> (error + bytes) \<times> 'j host \<Rightarrow> 'j result" where
  "install_transformed eng c r =
     (case r of
        (Inl e, h') \<Rightarrow> (Threw e, c, h')
      | (Inr transformedResponse, h') \<Rightarrow>
          (Returned,
           c\<lparr>response_body := BString (utf8_decode eng transformedResponse),
             response_type := ''text/html''\<rparr>,
           h'))"

definition not_supported_message :: "string option \<Rightarrow> string" where
  "not_supported_message name =
     ''Not supported! response.body type '' @ [CHR 0x27]
       @ (case name of None \<Rightarrow> ''undefined'' | Some n \<Rightarrow> n) @ [CHR 0x27]"

text \<open>
  Lines 137 to 179. In the third branch the body is a stream object that the context
  keeps holding while it is read: once \<^verbatim>\<open>readStreamToString\<close> has settled, the body of
  the context is the drained stream, until the new body is assigned.
\<close>

definition dispatch :: "'j engine \<Rightarrow> options \<Rightarrow> ctx \<Rightarrow> 'j host \<Rightarrow> 'j result" where
  "dispatch eng opts c h =
     (let requestHtmlFileAbsolutePath =
            path_join (servedDirectoryAbsolutePath opts)
              (getFilePathOfRequestUrl opts (request_url c))
      in case response_body c of
           BString responseBody \<Rightarrow>
             install_transformed eng c
               (transformResponse eng (servedDirectoryAbsolutePath opts)
                  requestHtmlFileAbsolutePath (utf8_encode eng responseBody) h)
         | BUint8Array responseBody \<Rightarrow>
             install_transformed eng c
               (transformResponse eng (servedDirectoryAbsolutePath opts)
                  requestHtmlFileAbsolutePath responseBody h)
         | BReadStream responseBody \<Rightarrow>
             (case readStreamToString eng responseBody of
                None \<Rightarrow> (Pending, c, h)
              | Some (Inl err) \<Rightarrow>
                  (Threw err, c\<lparr>response_body := BReadStream (drained responseBody)\<rparr>, h)
              | Some (Inr initialCode) \<Rightarrow>
                  install_transformed eng
                    (c\<lparr>response_body := BReadStream (drained responseBody)\<rparr>)
                    (transformResponse eng (servedDirectoryAbsolutePath opts)
                       requestHtmlFileAbsolutePath (utf8_encode eng initialCode) h))
         | BOther name \<Rightarrow> (Threw (Error (not_supported_message name)), c, h))"

text \<open>Lines 128 to 179: what the middleware does once \<^verbatim>\<open>next()\<close> has returned.\<close>

definition after_next :: "'j engine \<Rightarrow> options \<Rightarrow> ctx \<Rightarrow> 'j host \<Rightarrow> 'j result" where
  "after_next eng opts c h =
     (if \<not> response_is c ''text/html'' then (Returned, c, h)
      else
        (case shouldRun opts of
           None \<Rightarrow> dispatch eng opts c h
         | Some f \<Rightarrow>
             (if f c = False then (Returned, c, h\<lparr>log := log h @ [ShouldRunCalled]\<rparr>)
              else dispatch eng opts c (h\<lparr>log := log h @ [ShouldRunCalled]\<rparr>))))"

text \<open>
  Lines 124 to 181. \<open>next\<close> is the rest of the pipeline; when it throws, the
  middleware throws the same error and does nothing else, and when it never returns,
  neither does the middleware.
\<close>

definition createMiddleware ::
  "'j engine \<Rightarrow> options \<Rightarrow> (ctx \<Rightarrow> 'j host \<Rightarrow> 'j result) \<Rightarrow> ctx \<Rightarrow> 'j host \<Rightarrow> 'j result" where
  "createMiddleware eng opts next c h =
     (case next c h of
        (Returned, c', h') \<Rightarrow> after_next eng opts c' h'
      | (Threw e, c', h') \<Rightarrow> (Threw e, c', h')
      | (Pending, c', h') \<Rightarrow> (Pending, c', h'))"

section \<open>What the specification speaks of\<close>

text \<open>
  The notions below are the specification's, written down to state its sentences; the
  code does not use them.

  An element is matched when it is a script of type \<^verbatim>\<open>importmap\<close> with a \<^verbatim>\<open>src\<close>.
\<close>

definition matched :: "string \<Rightarrow> (string \<times> string) list \<Rightarrow> bool" where
  "matched t as = (t = ''script'' \<and> map_of as ''type'' = Some ''importmap''
                    \<and> map_of as ''src'' \<noteq> None)"

text \<open>
  The module that an import of a path yields in a host state, if it yields one: the
  registered one, and for an unregistered path what reading and parsing the file gives.
\<close>

definition loaded :: "'j host \<Rightarrow> string \<Rightarrow> 'j option" where
  "loaded h path =
     (case registry h path of
        Some v \<Rightarrow> Some v
      | None \<Rightarrow> (case fetch h path of Inl e \<Rightarrow> None | Inr v \<Rightarrow> Some v))"

text \<open>
  The paths of the matched elements of a document, in document order, given the path
  that each \<^verbatim>\<open>src\<close> stands for. What a matched element contains is not looked at.
\<close>

fun import_paths :: "(string \<Rightarrow> string) \<Rightarrow> node \<Rightarrow> string list" where
  "import_paths path_of (Text s) = []"
| "import_paths path_of (Element t as cs) =
     (if matched t as then [path_of (the (map_of as ''src''))]
      else concat (map (import_paths path_of) cs))"

text \<open>
  The document with every matched element inlined: its attributes are stripped, its
  content is the given markup for the path, and everything else is as it was. The
  specification strips every \<^verbatim>\<open>src\<close> attribute and gives the compact JSON text as
  content.
\<close>

fun inline_node ::
  "((string \<times> string) list \<Rightarrow> (string \<times> string) list) \<Rightarrow> (string \<Rightarrow> string) \<Rightarrow> (string \<Rightarrow> string)
     \<Rightarrow> node \<Rightarrow> node" where
  "inline_node strip path_of content_of (Text s) = Text s"
| "inline_node strip path_of content_of (Element t as cs) =
     (if matched t as
      then Element t (strip as) [Text (content_of (path_of (the (map_of as ''src''))))]
      else Element t as (map (inline_node strip path_of content_of) cs))"

definition without_src :: "(string \<times> string) list \<Rightarrow> (string \<times> string) list" where
  "without_src as = filter (\<lambda>(k, v). k \<noteq> ''src'') as"

text \<open>
  Two conditions on the input under which the rewriter's handling of text and of
  attributes written twice does not show: every matched element of the document has
  one \<^verbatim>\<open>src\<close> attribute, and a text holds none of \<^verbatim>\<open>&\<close>, \<^verbatim>\<open><\<close> and \<^verbatim>\<open>>\<close>.
\<close>

fun single_src :: "node \<Rightarrow> bool" where
  "single_src (Text s) = True"
| "single_src (Element t as cs) =
     (if matched t as then length (filter (\<lambda>(k, v). k = ''src'') as) = 1
      else list_all single_src cs)"

definition plain :: "string \<Rightarrow> bool" where
  "plain s = (CHR ''&'' \<notin> set s \<and> CHR ''<'' \<notin> set s \<and> CHR ''>'' \<notin> set s)"

text \<open>The bytes of the \<^verbatim>\<open>Response\<close> that the dispatch builds from a supported body.\<close>

definition response_bytes :: "'j engine \<Rightarrow> body \<Rightarrow> bytes option" where
  "response_bytes eng b =
     (case b of
        BString text \<Rightarrow> Some (utf8_encode eng text)
      | BUint8Array buffer \<Rightarrow> Some buffer
      | BReadStream stream \<Rightarrow>
          (case readStreamToString eng stream of
             Some (Inr text) \<Rightarrow> Some (utf8_encode eng text)
           | _ \<Rightarrow> None)
      | BOther name \<Rightarrow> None)"

text \<open>
  The context once the dispatch has read its body: a stream that was not consumed is
  drained, and nothing else differs.
\<close>

definition after_read :: "ctx \<Rightarrow> ctx" where
  "after_read c =
     (case response_body c of
        BReadStream stream \<Rightarrow>
          (if consumed stream then c
           else c\<lparr>response_body := BReadStream (drained stream)\<rparr>)
      | _ \<Rightarrow> c)"

text \<open>
  A later host state extends an earlier one when the process and the file system are
  the same and every import yields what it yielded before: the loader has only
  registered modules.
\<close>

definition extends :: "'j host \<Rightarrow> 'j host \<Rightarrow> bool" where
  "extends h h' = (cwd h' = cwd h \<and> fetch h' = fetch h \<and> loaded h' = loaded h
                   \<and> (\<forall>q. registry h q \<noteq> None \<longrightarrow> registry h' q \<noteq> None))"

text \<open>
  The values used in the worked examples: a parsed JSON value is held as its compact
  text, so that \<^verbatim>\<open>JSON.stringify\<close> is the identity; text is ASCII, one byte a character;
  the parser knows the pages of the site: the sample page, a page whose script has two
  \<^verbatim>\<open>src\<close> attributes, and that page with the first of them inlined.
\<close>

definition sample_page :: string where
  "sample_page = ''<script type=importmap src=/m.json></script>''"

definition sample_doc :: "node list" where
  "sample_doc = [Element ''script'' [(''type'', ''importmap''), (''src'', ''/m.json'')] []]"

fun serialize_node :: "node \<Rightarrow> string" where
  "serialize_node (Text s) = s"
| "serialize_node (Element t as cs) =
     ''<'' @ t @ concat (map (\<lambda>(k, v). '' '' @ k @ ''='' @ v) as) @ ''>''
       @ concat (map serialize_node cs) @ ''</'' @ t @ ''>''"

definition twice_page :: string where
  "twice_page = ''<script type=importmap src=/m.json src=/n.json></script>''"

definition twice_doc :: "node list" where
  "twice_doc =
     [Element ''script'' [(''type'', ''importmap''), (''src'', ''/m.json''), (''src'', ''/n.json'')] []]"

definition once_page :: string where
  "once_page = ''<script type=importmap src=/n.json>{}</script>''"

definition once_doc :: "node list" where
  "once_doc = [Element ''script'' [(''type'', ''importmap''), (''src'', ''/n.json'')] [Text ''{}'']]"

definition sample_engine :: "string engine" where
  "sample_engine =
     \<lparr>utf8_encode = map of_char,
      utf8_decode = map (\<lambda>b. char_of (unat b)),
      parse_html = (\<lambda>b. if b = map of_char sample_page then sample_doc
                          else if b = map of_char twice_page then twice_doc
                          else if b = map of_char once_page then once_doc
                          else [Text (map (\<lambda>b. char_of (unat b)) b)]),
      serialize_html = (\<lambda>d. map of_char (concat (map serialize_node d))),
      json_stringify = (\<lambda>j. j)\<rparr>"

definition sample_host :: "string host" where
  "sample_host =
     \<lparr>cwd = ''/srv'',
      fetch = (\<lambda>p. if p = ''/site/m.json'' then Inr ''{}'' else Inl ReferenceLoadFailure),
      registry = Map.empty,
      log = []\<rparr>"

definition sample_options :: options where
  "sample_options =
     \<lparr>servedDirectoryAbsolutePath = ''/site'',
      shouldRun = None,
      getFilePathOfRequestUrl = (\<lambda>url. if url = ''/'' then ''/index.html'' else url)\<rparr>"

definition sample_ctx :: ctx where
  "sample_ctx =
     \<lparr>request_url = ''/'', response_type = ''text/html'', response_body = BString sample_page\<rparr>"

text \<open>A rest of the pipeline that leaves the response as it finds it.\<close>

definition sample_next :: "ctx \<Rightarrow> string host \<Rightarrow> string result" where
  "sample_next c h = (Returned, c, h)"

text \<open>The sample page as a stream of two chunks that has not been read.\<close>

definition sample_stream :: read_stream where
  "sample_stream =
     \<lparr>chunks = [map of_char ''<script type=importmap '', map of_char ''src=/m.json></script>''],
      failure = None,
      consumed = False\<rparr>"

text \<open>The import map of the sample site after an edit.\<close>

definition changed_map :: string where
  "changed_map = ''{'' @ [CHR 0x22] @ ''imports'' @ [CHR 0x22] @ '':{}}''"

definition edited_fetch :: "string \<Rightarrow> error + string" where
  "edited_fetch p = (if p = ''/site/m.json'' then Inr changed_map else Inl ReferenceLoadFailure)"

text \<open>The site with no file left, with a second import map, and with an import map
  that holds an ampersand.\<close>

definition empty_fetch :: "string \<Rightarrow> error + string" where
  "empty_fetch p = Inl ReferenceLoadFailure"

definition two_fetch :: "string \<Rightarrow> error + string" where
  "two_fetch p =
     (if p = ''/site/m.json'' then Inr ''{}''
      else if p = ''/site/n.json'' then Inr changed_map
      else Inl ReferenceLoadFailure)"

definition amp_map :: string where
  "amp_map = ''{'' @ [CHR 0x22] @ ''imports'' @ [CHR 0x22] @ '':{'' @ [CHR 0x22] @ ''a''
               @ [CHR 0x22] @ '':'' @ [CHR 0x22] @ ''/a.js?x=1&y=2'' @ [CHR 0x22] @ ''}}''"

text \<open>That import map with the ampersand written as an entity.\<close>

definition amp_written :: string where
  "amp_written = ''{'' @ [CHR 0x22] @ ''imports'' @ [CHR 0x22] @ '':{'' @ [CHR 0x22] @ ''a''
                   @ [CHR 0x22] @ '':'' @ [CHR 0x22] @ ''/a.js?x=1&amp;y=2'' @ [CHR 0x22] @ ''}}''"

definition amp_fetch :: "string \<Rightarrow> error + string" where
  "amp_fetch p = (if p = ''/site/m.json'' then Inr amp_map else Inl ReferenceLoadFailure)"

section \<open>The loader and the handler\<close>

lemma extends_refl: "extends h h"
  by (simp add: extends_def)

lemma extends_trans: "extends h h1 \<Longrightarrow> extends h1 h2 \<Longrightarrow> extends h h2"
  by (simp add: extends_def)

lemma import_json_ok:
  assumes "loaded h p = Some v"
  shows "\<exists>h'. import_json p h = (Inr v, h') \<and> extends h h' \<and> registry h' p \<noteq> None"
proof (cases "registry h p")
  case None
  with assms obtain "fetch h p = Inr v"
    by (auto simp: loaded_def split: sum.splits)
  with None show ?thesis
    by (auto simp: import_json_def extends_def loaded_def fun_eq_iff split: option.splits sum.splits)
next
  case (Some w)
  with assms show ?thesis
    by (auto simp: import_json_def extends_def loaded_def fun_eq_iff split: option.splits sum.splits)
qed

lemma import_json_fail:
  assumes "loaded h p = None"
  shows "\<exists>e h'. import_json p h = (Inl e, h') \<and> fetch h p = Inl e"
  using assms by (auto simp: import_json_def loaded_def split: option.splits sum.splits)

lemma handler_skip:
  "\<not> matched (tagName el) (attributes el) \<Longrightarrow> element_handler sf root html el h = (Inr el, h)"
  by (auto simp: element_handler_def matched_def getAttribute_def split: option.splits)

lemma handler_ok:
  assumes "matched t as"
    and "loaded h (externalImportMapAbsolutePath (cwd h) root html (the (map_of as ''src''))) = Some v"
  shows "\<exists>h'. element_handler sf root html \<lparr>tagName = t, attributes = as, innerContent = None\<rparr> h
           = (Inr \<lparr>tagName = t, attributes = remove_first ''src'' as,
                   innerContent = Some (escape_text (sf v))\<rparr>, h')
         \<and> extends h h'
         \<and> registry h' (externalImportMapAbsolutePath (cwd h) root html (the (map_of as ''src''))) \<noteq> None"
proof -
  from assms(1) obtain src where src: "map_of as ''src'' = Some src"
    and t: "t = ''script''" and ty: "map_of as ''type'' = Some ''importmap''"
    by (auto simp: matched_def)
  from import_json_ok [OF assms(2)] obtain h' where
    "import_json (externalImportMapAbsolutePath (cwd h) root html (the (map_of as ''src''))) h = (Inr v, h')"
    "extends h h'"
    "registry h' (externalImportMapAbsolutePath (cwd h) root html (the (map_of as ''src''))) \<noteq> None"
    by blast
  with src t ty show ?thesis
    by (simp add: element_handler_def getAttribute_def removeAttribute_def setInnerContent_def)
qed

lemma handler_fail:
  assumes "matched t as"
    and "loaded h (externalImportMapAbsolutePath (cwd h) root html (the (map_of as ''src''))) = None"
  shows "\<exists>e h'. element_handler sf root html \<lparr>tagName = t, attributes = as, innerContent = None\<rparr> h
           = (Inl e, h')
         \<and> fetch h (externalImportMapAbsolutePath (cwd h) root html (the (map_of as ''src''))) = Inl e"
proof -
  from assms(1) obtain src where src: "map_of as ''src'' = Some src"
    and t: "t = ''script''" and ty: "map_of as ''type'' = Some ''importmap''"
    by (auto simp: matched_def)
  from import_json_fail [OF assms(2)] obtain e h' where
    "import_json (externalImportMapAbsolutePath (cwd h) root html (the (map_of as ''src''))) h = (Inl e, h')"
    "fetch h (externalImportMapAbsolutePath (cwd h) root html (the (map_of as ''src''))) = Inl e"
    by blast
  with src t ty show ?thesis
    by (simp add: element_handler_def getAttribute_def)
qed


lemma rewrite_nodes_ok_lift:
  assumes node: "\<And>n h. n \<in> set ns \<Longrightarrow>
            \<forall>p \<in> set (import_paths (externalImportMapAbsolutePath (cwd h) root html) n). loaded h p \<noteq> None \<Longrightarrow>
            \<exists>h'. rewrite_node (element_handler sf root html) n h
                   = (Inr (inline_node (remove_first ''src'') (externalImportMapAbsolutePath (cwd h) root html)
                             (\<lambda>p. escape_text (sf (the (loaded h p)))) n), h')
                \<and> extends h h'
                \<and> (\<forall>p \<in> set (import_paths (externalImportMapAbsolutePath (cwd h) root html) n).
                      registry h' p \<noteq> None)"
    and all: "\<forall>p \<in> set (concat (map (import_paths (externalImportMapAbsolutePath (cwd h) root html)) ns)).
                loaded h p \<noteq> None"
  shows "\<exists>h'. rewrite_nodes (element_handler sf root html) ns h
                 = (Inr (map (inline_node (remove_first ''src'') (externalImportMapAbsolutePath (cwd h) root html)
                               (\<lambda>p. escape_text (sf (the (loaded h p))))) ns), h')
              \<and> extends h h'
              \<and> (\<forall>p \<in> set (concat (map (import_paths (externalImportMapAbsolutePath (cwd h) root html)) ns)).
                    registry h' p \<noteq> None)"
  using node all
proof (induction ns arbitrary: h)
  case Nil
  show ?case by (simp add: extends_refl)
next
  case (Cons n ns)
  let ?pf = "externalImportMapAbsolutePath (cwd h) root html"
  have "\<forall>p \<in> set (import_paths ?pf n). loaded h p \<noteq> None"
    using Cons.prems(2) by simp
  with Cons.prems(1) [of n h] obtain h1 where
    step: "rewrite_node (element_handler sf root html) n h
             = (Inr (inline_node (remove_first ''src'') ?pf (\<lambda>p. escape_text (sf (the (loaded h p)))) n), h1)"
    and ext1: "extends h h1"
    and reg1: "\<forall>p \<in> set (import_paths ?pf n). registry h1 p \<noteq> None"
    by auto
  from ext1 have same: "cwd h1 = cwd h" "loaded h1 = loaded h"
    by (simp_all add: extends_def)
  have "\<forall>p \<in> set (concat (map (import_paths (externalImportMapAbsolutePath (cwd h1) root html)) ns)).
          loaded h1 p \<noteq> None"
    using Cons.prems(2) same by simp
  with Cons.IH [of h1] Cons.prems(1) obtain h2 where
    rest: "rewrite_nodes (element_handler sf root html) ns h1
             = (Inr (map (inline_node (remove_first ''src'') ?pf (\<lambda>p. escape_text (sf (the (loaded h p))))) ns), h2)"
    and ext2: "extends h1 h2"
    and reg2: "\<forall>p \<in> set (concat (map (import_paths ?pf) ns)). registry h2 p \<noteq> None"
    using same by auto
  from reg1 ext2 have "\<forall>p \<in> set (import_paths ?pf n). registry h2 p \<noteq> None"
    by (simp add: extends_def)
  with step rest reg2 extends_trans [OF ext1 ext2] show ?case
    by auto
qed

lemma rewrite_node_ok:
  "\<forall>p \<in> set (import_paths (externalImportMapAbsolutePath (cwd h) root html) n). loaded h p \<noteq> None \<Longrightarrow>
   \<exists>h'. rewrite_node (element_handler sf root html) n h
          = (Inr (inline_node (remove_first ''src'') (externalImportMapAbsolutePath (cwd h) root html)
                    (\<lambda>p. escape_text (sf (the (loaded h p)))) n), h')
       \<and> extends h h'
       \<and> (\<forall>p \<in> set (import_paths (externalImportMapAbsolutePath (cwd h) root html) n).
             registry h' p \<noteq> None)"
proof (induction n arbitrary: h)
  case (Text s)
  show ?case by (simp add: extends_refl)
next
  case (Element t as cs)
  let ?pf = "externalImportMapAbsolutePath (cwd h) root html"
  show ?case
  proof (cases "matched t as")
    case True
    with Element.prems obtain v where "loaded h (?pf (the (map_of as ''src''))) = Some v"
      by auto
    from handler_ok [OF True this, of sf] this True show ?thesis
      by auto
  next
    case False
    then have skip: "element_handler sf root html \<lparr>tagName = t, attributes = as, innerContent = None\<rparr> h
                 = (Inr \<lparr>tagName = t, attributes = as, innerContent = None\<rparr>, h)"
      by (simp add: handler_skip)
    from False Element.prems
    have "\<forall>p \<in> set (concat (map (import_paths ?pf) cs)). loaded h p \<noteq> None"
      by simp
    with rewrite_nodes_ok_lift [of cs root html sf h] Element.IH obtain h' where
      "rewrite_nodes (element_handler sf root html) cs h
         = (Inr (map (inline_node (remove_first ''src'') ?pf (\<lambda>p. escape_text (sf (the (loaded h p))))) cs), h')"
      "extends h h'"
      "\<forall>p \<in> set (concat (map (import_paths ?pf) cs)). registry h' p \<noteq> None"
      by blast
    with skip False show ?thesis
      by simp
  qed
qed

lemma rewrite_nodes_ok:
  "\<forall>p \<in> set (concat (map (import_paths (externalImportMapAbsolutePath (cwd h) root html)) ns)).
      loaded h p \<noteq> None \<Longrightarrow>
   \<exists>h'. rewrite_nodes (element_handler sf root html) ns h
          = (Inr (map (inline_node (remove_first ''src'') (externalImportMapAbsolutePath (cwd h) root html)
                        (\<lambda>p. escape_text (sf (the (loaded h p))))) ns), h')
       \<and> extends h h'
       \<and> (\<forall>p \<in> set (concat (map (import_paths (externalImportMapAbsolutePath (cwd h) root html)) ns)).
             registry h' p \<noteq> None)"
proof (rule rewrite_nodes_ok_lift)
  fix n :: node and k :: "'a host"
  assume "\<forall>p \<in> set (import_paths (externalImportMapAbsolutePath (cwd k) root html) n). loaded k p \<noteq> None"
  then show "\<exists>h'. rewrite_node (element_handler sf root html) n k
          = (Inr (inline_node (remove_first ''src'') (externalImportMapAbsolutePath (cwd k) root html)
                    (\<lambda>p. escape_text (sf (the (loaded k p)))) n), h')
       \<and> extends k h'
       \<and> (\<forall>p \<in> set (import_paths (externalImportMapAbsolutePath (cwd k) root html) n).
             registry h' p \<noteq> None)"
    by (rule rewrite_node_ok)
qed


lemma rewrite_nodes_fail_lift:
  assumes node: "\<And>n h. n \<in> set ns \<Longrightarrow>
            \<exists>p \<in> set (import_paths (externalImportMapAbsolutePath (cwd h) root html) n). loaded h p = None \<Longrightarrow>
            \<exists>e h'. rewrite_node (element_handler sf root html) n h = (Inl e, h') \<and> (\<exists>q. fetch h q = Inl e)"
    and some: "\<exists>p \<in> set (concat (map (import_paths (externalImportMapAbsolutePath (cwd h) root html)) ns)).
                loaded h p = None"
  shows "\<exists>e h'. rewrite_nodes (element_handler sf root html) ns h = (Inl e, h') \<and> (\<exists>q. fetch h q = Inl e)"
  using node some
proof (induction ns arbitrary: h)
  case Nil
  then show ?case by simp
next
  case (Cons n ns)
  let ?pf = "externalImportMapAbsolutePath (cwd h) root html"
  show ?case
  proof (cases "\<exists>p \<in> set (import_paths ?pf n). loaded h p = None")
    case True
    with Cons.prems(1) [of n h] obtain e h' where
      "rewrite_node (element_handler sf root html) n h = (Inl e, h')" "\<exists>q. fetch h q = Inl e"
      by auto
    then show ?thesis by auto
  next
    case False
    then have "\<forall>p \<in> set (import_paths ?pf n). loaded h p \<noteq> None"
      by simp
    from rewrite_node_ok [OF this, of sf] obtain h1 where
      step: "rewrite_node (element_handler sf root html) n h
               = (Inr (inline_node (remove_first ''src'') ?pf (\<lambda>p. escape_text (sf (the (loaded h p)))) n), h1)"
      and ext1: "extends h h1"
      by blast
    from ext1 have same: "cwd h1 = cwd h" "loaded h1 = loaded h" "fetch h1 = fetch h"
      by (simp_all add: extends_def)
    from False Cons.prems(2)
    have "\<exists>p \<in> set (concat (map (import_paths (externalImportMapAbsolutePath (cwd h1) root html)) ns)).
            loaded h1 p = None"
      using same by auto
    with Cons.IH [of h1] Cons.prems(1) obtain e h2 where
      "rewrite_nodes (element_handler sf root html) ns h1 = (Inl e, h2)" "\<exists>q. fetch h1 q = Inl e"
      by auto
    with step same show ?thesis by auto
  qed
qed

lemma rewrite_node_fail:
  "\<exists>p \<in> set (import_paths (externalImportMapAbsolutePath (cwd h) root html) n). loaded h p = None \<Longrightarrow>
   \<exists>e h'. rewrite_node (element_handler sf root html) n h = (Inl e, h') \<and> (\<exists>q. fetch h q = Inl e)"
proof (induction n arbitrary: h)
  case (Text s)
  then show ?case by simp
next
  case (Element t as cs)
  let ?pf = "externalImportMapAbsolutePath (cwd h) root html"
  show ?case
  proof (cases "matched t as")
    case True
    with Element.prems have "loaded h (?pf (the (map_of as ''src''))) = None"
      by simp
    from handler_fail [OF True this, of sf] show ?thesis
      by auto
  next
    case False
    then have skip: "element_handler sf root html \<lparr>tagName = t, attributes = as, innerContent = None\<rparr> h
                 = (Inr \<lparr>tagName = t, attributes = as, innerContent = None\<rparr>, h)"
      by (simp add: handler_skip)
    from False Element.prems
    have "\<exists>p \<in> set (concat (map (import_paths ?pf) cs)). loaded h p = None"
      by simp
    with rewrite_nodes_fail_lift [of cs root html sf h] Element.IH obtain e h' where
      "rewrite_nodes (element_handler sf root html) cs h = (Inl e, h')" "\<exists>q. fetch h q = Inl e"
      by blast
    with skip show ?thesis
      by simp
  qed
qed

lemma rewrite_nodes_fail:
  "\<exists>p \<in> set (concat (map (import_paths (externalImportMapAbsolutePath (cwd h) root html)) ns)).
      loaded h p = None \<Longrightarrow>
   \<exists>e h'. rewrite_nodes (element_handler sf root html) ns h = (Inl e, h') \<and> (\<exists>q. fetch h q = Inl e)"
proof (rule rewrite_nodes_fail_lift)
  fix n :: node and k :: "'a host"
  assume "\<exists>p \<in> set (import_paths (externalImportMapAbsolutePath (cwd k) root html) n). loaded k p = None"
  then show "\<exists>e h'. rewrite_node (element_handler sf root html) n k = (Inl e, h') \<and> (\<exists>q. fetch k q = Inl e)"
    by (rule rewrite_node_fail)
qed


lemma handler_registered:
  assumes "matched t as"
    and "registry h (externalImportMapAbsolutePath (cwd h) root html (the (map_of as ''src''))) = Some v"
  shows "element_handler sf root html \<lparr>tagName = t, attributes = as, innerContent = None\<rparr> h
           = (Inr \<lparr>tagName = t, attributes = remove_first ''src'' as,
                   innerContent = Some (escape_text (sf v))\<rparr>,
              h\<lparr>log := log h @ [ImportCalled (externalImportMapAbsolutePath (cwd h) root html
                                                 (the (map_of as ''src'')))]\<rparr>)"
proof -
  from assms(1) obtain src where "map_of as ''src'' = Some src"
    "t = ''script''" "map_of as ''type'' = Some ''importmap''"
    by (auto simp: matched_def)
  with assms(2) show ?thesis
    by (simp add: element_handler_def getAttribute_def removeAttribute_def setInnerContent_def
        import_json_def)
qed

lemma rewrite_nodes_registered_lift:
  assumes node: "\<And>n h. n \<in> set ns \<Longrightarrow>
            \<forall>p \<in> set (import_paths (externalImportMapAbsolutePath (cwd h) root html) n). registry h p \<noteq> None \<Longrightarrow>
            rewrite_node (element_handler sf root html) n h
              = (Inr (inline_node (remove_first ''src'') (externalImportMapAbsolutePath (cwd h) root html)
                        (\<lambda>p. escape_text (sf (the (registry h p)))) n),
                 h\<lparr>log := log h @ map ImportCalled
                     (import_paths (externalImportMapAbsolutePath (cwd h) root html) n)\<rparr>)"
    and all: "\<forall>p \<in> set (concat (map (import_paths (externalImportMapAbsolutePath (cwd h) root html)) ns)).
                registry h p \<noteq> None"
  shows "rewrite_nodes (element_handler sf root html) ns h
           = (Inr (map (inline_node (remove_first ''src'') (externalImportMapAbsolutePath (cwd h) root html)
                         (\<lambda>p. escape_text (sf (the (registry h p))))) ns),
              h\<lparr>log := log h @ map ImportCalled
                  (concat (map (import_paths (externalImportMapAbsolutePath (cwd h) root html)) ns))\<rparr>)"
  using node all
proof (induction ns arbitrary: h)
  case Nil
  show ?case by simp
next
  case (Cons n ns)
  let ?pf = "externalImportMapAbsolutePath (cwd h) root html"
  let ?h1 = "h\<lparr>log := log h @ map ImportCalled (import_paths ?pf n)\<rparr>"
  have "\<forall>p \<in> set (import_paths ?pf n). registry h p \<noteq> None"
    using Cons.prems(2) by simp
  with Cons.prems(1) [of n h]
  have step: "rewrite_node (element_handler sf root html) n h
                = (Inr (inline_node (remove_first ''src'') ?pf (\<lambda>p. escape_text (sf (the (registry h p)))) n), ?h1)"
    by simp
  have "\<forall>p \<in> set (concat (map (import_paths (externalImportMapAbsolutePath (cwd ?h1) root html)) ns)).
          registry ?h1 p \<noteq> None"
    using Cons.prems(2) by simp
  with Cons.IH [of ?h1] Cons.prems(1)
  have rest: "rewrite_nodes (element_handler sf root html) ns ?h1
                = (Inr (map (inline_node (remove_first ''src'') ?pf (\<lambda>p. escape_text (sf (the (registry h p))))) ns),
                   ?h1\<lparr>log := log ?h1 @ map ImportCalled (concat (map (import_paths ?pf) ns))\<rparr>)"
    by simp
  from step rest show ?case
    by simp
qed

lemma rewrite_node_registered:
  "\<forall>p \<in> set (import_paths (externalImportMapAbsolutePath (cwd h) root html) n). registry h p \<noteq> None \<Longrightarrow>
   rewrite_node (element_handler sf root html) n h
     = (Inr (inline_node (remove_first ''src'') (externalImportMapAbsolutePath (cwd h) root html)
               (\<lambda>p. escape_text (sf (the (registry h p)))) n),
        h\<lparr>log := log h @ map ImportCalled
            (import_paths (externalImportMapAbsolutePath (cwd h) root html) n)\<rparr>)"
proof (induction n arbitrary: h)
  case (Text s)
  show ?case by simp
next
  case (Element t as cs)
  let ?pf = "externalImportMapAbsolutePath (cwd h) root html"
  show ?case
  proof (cases "matched t as")
    case True
    with Element.prems obtain v where "registry h (?pf (the (map_of as ''src''))) = Some v"
      by auto
    from handler_registered [OF True this, of sf] this True show ?thesis
      by simp
  next
    case False
    then have skip: "element_handler sf root html \<lparr>tagName = t, attributes = as, innerContent = None\<rparr> h
                 = (Inr \<lparr>tagName = t, attributes = as, innerContent = None\<rparr>, h)"
      by (simp add: handler_skip)
    from False Element.prems
    have "\<forall>p \<in> set (concat (map (import_paths ?pf) cs)). registry h p \<noteq> None"
      by simp
    with rewrite_nodes_registered_lift [of cs root html sf h] Element.IH
    have "rewrite_nodes (element_handler sf root html) cs h
            = (Inr (map (inline_node (remove_first ''src'') ?pf (\<lambda>p. escape_text (sf (the (registry h p))))) cs),
               h\<lparr>log := log h @ map ImportCalled (concat (map (import_paths ?pf) cs))\<rparr>)"
      by blast
    with skip False show ?thesis
      by simp
  qed
qed

lemma rewrite_nodes_registered:
  "\<forall>p \<in> set (concat (map (import_paths (externalImportMapAbsolutePath (cwd h) root html)) ns)).
      registry h p \<noteq> None \<Longrightarrow>
   rewrite_nodes (element_handler sf root html) ns h
     = (Inr (map (inline_node (remove_first ''src'') (externalImportMapAbsolutePath (cwd h) root html)
                   (\<lambda>p. escape_text (sf (the (registry h p))))) ns),
        h\<lparr>log := log h @ map ImportCalled
            (concat (map (import_paths (externalImportMapAbsolutePath (cwd h) root html)) ns))\<rparr>)"
proof (rule rewrite_nodes_registered_lift)
  fix n :: node and k :: "'a host"
  assume "\<forall>p \<in> set (import_paths (externalImportMapAbsolutePath (cwd k) root html) n). registry k p \<noteq> None"
  then show "rewrite_node (element_handler sf root html) n k
     = (Inr (inline_node (remove_first ''src'') (externalImportMapAbsolutePath (cwd k) root html)
               (\<lambda>p. escape_text (sf (the (registry k p)))) n),
        k\<lparr>log := log k @ map ImportCalled
            (import_paths (externalImportMapAbsolutePath (cwd k) root html) n)\<rparr>)"
    by (rule rewrite_node_registered)
qed

lemma inline_node_id:
  "import_paths path_of n = [] \<Longrightarrow> inline_node strip path_of content_of n = n"
proof (induction n)
  case (Text s)
  show ?case by simp
next
  case (Element t as cs)
  then have "\<not> matched t as" and "\<forall>c \<in> set cs. import_paths path_of c = []"
    by (auto split: if_splits)
  with Element.IH have "map (inline_node strip path_of content_of) cs = cs"
    by (simp add: map_idI)
  with \<open>\<not> matched t as\<close> show ?case by simp
qed

lemma inline_node_cong:
  "\<forall>p \<in> set (import_paths path_of n). c1 p = c2 p \<Longrightarrow>
   inline_node strip path_of c1 n = inline_node strip path_of c2 n"
  by (induction n) auto

lemma map_of_without_src:
  "map_of (without_src as) ''src'' = None"
  unfolding without_src_def by (induction as) auto

lemma import_paths_inline_node:
  "import_paths path_of' (inline_node without_src path_of content_of n) = []"
proof (induction n)
  case (Text s)
  show ?case by simp
next
  case (Element t as cs)
  show ?case
  proof (cases "matched t as")
    case True
    then show ?thesis by (simp add: matched_def map_of_without_src)
  next
    case False
    with Element.IH show ?thesis by simp
  qed
qed

lemma rewrite_nodes_no_match:
  assumes "concat (map (import_paths (externalImportMapAbsolutePath (cwd h) root html)) ns) = []"
  shows "rewrite_nodes (element_handler sf root html) ns h = (Inr ns, h)"
proof -
  let ?pf = "externalImportMapAbsolutePath (cwd h) root html"
  from assms have "\<forall>n \<in> set ns. import_paths ?pf n = []"
    by simp
  then have "map (inline_node (remove_first ''src'') ?pf (\<lambda>p. escape_text (sf (the (registry h p))))) ns = ns"
    by (simp add: map_idI inline_node_id)
  with rewrite_nodes_registered [of h root html ns sf] assms show ?thesis
    by simp
qed

section \<open>The dispatch\<close>

lemma rewrite_nodes_success:
  assumes "rewrite_nodes (element_handler sf root html) ns h = (Inr out, h')"
  shows "out = map (inline_node (remove_first ''src'') (externalImportMapAbsolutePath (cwd h) root html)
                     (\<lambda>p. escape_text (sf (the (loaded h p))))) ns
       \<and> extends h h'
       \<and> (\<forall>p \<in> set (concat (map (import_paths (externalImportMapAbsolutePath (cwd h) root html)) ns)).
             loaded h p \<noteq> None \<and> registry h' p \<noteq> None)"
proof (cases "\<forall>p \<in> set (concat (map (import_paths (externalImportMapAbsolutePath (cwd h) root html)) ns)).
                loaded h p \<noteq> None")
  case True
  from rewrite_nodes_ok [OF True, of sf] assms True show ?thesis
    by auto
next
  case False
  then have "\<exists>p \<in> set (concat (map (import_paths (externalImportMapAbsolutePath (cwd h) root html)) ns)).
               loaded h p = None"
    by simp
  from rewrite_nodes_fail [OF this, of sf] assms show ?thesis
    by auto
qed

lemma rewrite_nodes_again:
  assumes "rewrite_nodes (element_handler sf root html) ns h = (Inr out, h1)"
  shows "rewrite_nodes (element_handler sf root html) ns (h1\<lparr>fetch := changed\<rparr>)
           = (Inr out,
              h1\<lparr>fetch := changed,
                 log := log h1 @ map ImportCalled
                   (concat (map (import_paths (externalImportMapAbsolutePath (cwd h) root html)) ns))\<rparr>)"
proof -
  let ?pf = "externalImportMapAbsolutePath (cwd h) root html"
  let ?h2 = "h1\<lparr>fetch := changed\<rparr>"
  from rewrite_nodes_success [OF assms]
  have out: "out = map (inline_node (remove_first ''src'') ?pf (\<lambda>p. escape_text (sf (the (loaded h p))))) ns"
    and ext: "extends h h1"
    and reg: "\<forall>p \<in> set (concat (map (import_paths ?pf) ns)). registry h1 p \<noteq> None"
    by simp_all
  from ext have same: "cwd h1 = cwd h" "loaded h1 = loaded h"
    by (simp_all add: extends_def)
  have agree: "\<forall>p \<in> set (concat (map (import_paths ?pf) ns)).
                 escape_text (sf (the (registry ?h2 p))) = escape_text (sf (the (loaded h p)))"
  proof
    fix p assume "p \<in> set (concat (map (import_paths ?pf) ns))"
    with reg obtain v where "registry h1 p = Some v" by auto
    then have "loaded h1 p = Some v" by (simp add: loaded_def)
    with same \<open>registry h1 p = Some v\<close> show "escape_text (sf (the (registry ?h2 p))) = escape_text (sf (the (loaded h p)))"
      by simp
  qed
  have "map (inline_node (remove_first ''src'') ?pf (\<lambda>p. escape_text (sf (the (registry ?h2 p))))) ns = out"
    unfolding out
  proof (rule map_cong [OF refl])
    fix n assume "n \<in> set ns"
    with agree have "\<forall>p \<in> set (import_paths ?pf n).
            escape_text (sf (the (registry ?h2 p))) = escape_text (sf (the (loaded h p)))"
      by auto
    then show "inline_node (remove_first ''src'') ?pf (\<lambda>p. escape_text (sf (the (registry ?h2 p)))) n
                 = inline_node (remove_first ''src'') ?pf (\<lambda>p. escape_text (sf (the (loaded h p)))) n"
      by (rule inline_node_cong)
  qed
  moreover have "\<forall>p \<in> set (concat (map (import_paths (externalImportMapAbsolutePath (cwd ?h2) root html)) ns)).
                   registry ?h2 p \<noteq> None"
    using reg same by simp
  from rewrite_nodes_registered [OF this, of sf]
  have "rewrite_nodes (element_handler sf root html) ns ?h2
          = (Inr (map (inline_node (remove_first ''src'') ?pf (\<lambda>p. escape_text (sf (the (registry ?h2 p))))) ns),
             ?h2\<lparr>log := log ?h2 @ map ImportCalled (concat (map (import_paths ?pf) ns))\<rparr>)"
    using same by simp
  ultimately show ?thesis by simp
qed

lemma loaded_log: "loaded (h\<lparr>log := l\<rparr>) = loaded h"
  by (simp add: loaded_def fun_eq_iff split: option.splits sum.splits)

lemma dispatch_bytes:
  assumes "response_bytes eng (response_body c) = Some b"
  shows "dispatch eng opts c h
           = install_transformed eng (after_read c)
               (transformResponse eng (servedDirectoryAbsolutePath opts)
                  (path_join (servedDirectoryAbsolutePath opts)
                     (getFilePathOfRequestUrl opts (request_url c))) b h)"
  using assms
  by (cases "response_body c")
     (auto simp: dispatch_def response_bytes_def after_read_def readStreamToString_def Let_def
        split: sum.splits option.splits if_splits)

lemma install_transformed_error:
  "install_transformed eng c r = (Threw e, c', h') \<Longrightarrow> c' = c"
  by (auto simp: install_transformed_def split: prod.splits sum.splits)

lemma install_transformed_done:
  "install_transformed eng c r = (Returned, c', h') \<Longrightarrow>
     \<exists>out. c' = c\<lparr>response_body := BString out, response_type := ''text/html''\<rparr>"
  by (auto simp: install_transformed_def split: prod.splits sum.splits)

lemma install_transformed_not_pending:
  "install_transformed eng c r \<noteq> (Pending, c', h')"
  by (auto simp: install_transformed_def split: prod.splits sum.splits)

lemma dispatch_error:
  "dispatch eng opts c h = (Threw e, c', h') \<Longrightarrow> c' = after_read c"
  by (cases "response_body c")
     (auto simp: dispatch_def after_read_def readStreamToString_def Let_def
        split: sum.splits option.splits if_splits dest: install_transformed_error)

lemma dispatch_pending:
  "dispatch eng opts c h = (Pending, c', h') \<Longrightarrow>
     c' = c \<and> h' = h \<and> (\<exists>stream. response_body c = BReadStream stream \<and> consumed stream)"
  by (cases "response_body c")
     (auto simp: dispatch_def readStreamToString_def Let_def install_transformed_not_pending
        split: sum.splits option.splits if_splits)

lemma after_next_error:
  "after_next eng opts c h = (Threw e, c', h') \<Longrightarrow> c' = after_read c"
  by (auto simp: after_next_def split: if_splits option.splits dest: dispatch_error)

lemma after_read_other:
  "(\<forall>stream. response_body c \<noteq> BReadStream stream) \<Longrightarrow> after_read c = c"
  by (cases "response_body c") (auto simp: after_read_def)

lemma plain_escape: "plain s \<Longrightarrow> escape_text s = s"
  by (induction s) (auto simp: plain_def)

lemma single_remove_first:
  "length (filter (\<lambda>(k, v). k = ''src'') as) = 1 \<Longrightarrow> remove_first ''src'' as = without_src as"
proof (induction as)
  case Nil
  then show ?case by simp
next
  case (Cons a as)
  obtain k v where a: "a = (k, v)" by (cases a)
  show ?case
  proof (cases "k = ''src''")
    case True
    with Cons.prems a have "filter (\<lambda>(k, v). k = ''src'') as = []"
      by simp
    then have "filter (\<lambda>(k, v). k \<noteq> ''src'') as = as"
      by (auto simp: filter_empty_conv filter_id_conv)
    with True a show ?thesis
      by (simp add: without_src_def)
  next
    case False
    with Cons a show ?thesis
      by (simp add: without_src_def)
  qed
qed

lemma inline_node_plain:
  assumes "single_src n"
    and "\<forall>p \<in> set (import_paths path_of n). plain (content_of p)"
  shows "inline_node (remove_first ''src'') path_of (\<lambda>p. escape_text (content_of p)) n
           = inline_node without_src path_of content_of n"
  using assms
proof (induction n)
  case (Text s)
  show ?case by simp
next
  case (Element t as cs)
  show ?case
  proof (cases "matched t as")
    case True
    with Element.prems show ?thesis
      by (simp add: single_remove_first plain_escape)
  next
    case False
    with Element.prems have "\<forall>c \<in> set cs. single_src c"
      and "\<forall>c \<in> set cs. \<forall>p \<in> set (import_paths path_of c). plain (content_of p)"
      by (auto simp: list_all_iff)
    with Element.IH have "map (inline_node (remove_first ''src'') path_of (\<lambda>p. escape_text (content_of p))) cs
                            = map (inline_node without_src path_of content_of) cs"
      by simp
    with False show ?thesis by simp
  qed
qed

lemma import_paths_inline_single:
  "single_src n \<Longrightarrow> import_paths path_of' (inline_node (remove_first ''src'') path_of content_of n) = []"
proof (induction n)
  case (Text s)
  show ?case by simp
next
  case (Element t as cs)
  show ?case
  proof (cases "matched t as")
    case True
    with Element.prems have "remove_first ''src'' as = without_src as"
      by (simp add: single_remove_first)
    with True show ?thesis
      by (simp add: matched_def map_of_without_src)
  next
    case False
    with Element.prems have "\<forall>c \<in> set cs. single_src c"
      by (simp add: list_all_iff)
    with Element.IH False show ?thesis by simp
  qed
qed

lemma rewrite_nodes_all_registered:
  assumes "\<forall>p \<in> set (concat (map (import_paths
                 (externalImportMapAbsolutePath (cwd h) root html)) (parse_html eng b))).
             registry h p \<noteq> None"
  shows "\<exists>out h'. transformResponse eng root html b h = (Inr out, h')"
  using rewrite_nodes_registered [OF assms, of "json_stringify eng"]
  by (simp add: transformResponse_def)

text \<open>
  A second transform of the output changes nothing when every matched element of the
  input had one \<^verbatim>\<open>src\<close> attribute, provided the parser reads the output as the
  serialiser wrote it.
\<close>

lemma rerun_single_src:
  assumes run: "rewrite_nodes (element_handler (json_stringify eng) root html) (parse_html eng b) h
                  = (Inr d, h1)"
    and single: "list_all single_src (parse_html eng b)"
    and reread: "parse_html eng (serialize_html eng d) = d"
  shows "transformResponse eng root' html' (serialize_html eng d) h2
           = (Inr (serialize_html eng d), h2)"
proof -
  from rewrite_nodes_success [OF run]
  have "d = map (inline_node (remove_first ''src'') (externalImportMapAbsolutePath (cwd h) root html)
                   (\<lambda>p. escape_text (json_stringify eng (the (loaded h p))))) (parse_html eng b)"
    by simp
  with single
  have "concat (map (import_paths (externalImportMapAbsolutePath (cwd h2) root' html')) d) = []"
    by (simp add: import_paths_inline_single list_all_iff)
  from rewrite_nodes_no_match [OF this, of "json_stringify eng"] reread show ?thesis
    by (simp add: transformResponse_def)
qed

text \<open>The bytes of the sample engine: a character read from a byte is that byte again.\<close>

lemma byte_of_char_of: "(of_char (char_of (n::nat)) :: 8 word) = of_nat n"
proof -
  have "(of_char (char_of n) :: 8 word) = of_nat (of_char (char_of n))"
    by (simp only: of_nat_of_char)
  also have "\<dots> = of_nat (n mod 256)"
    by simp
  also have "\<dots> = of_nat n"
    by (simp add: word_eq_iff_unsigned [where ?'a = nat] unat_of_nat)
  finally show ?thesis .
qed

section \<open>The claims\<close>

lemmas sample_defs =
  sample_page_def sample_doc_def sample_engine_def sample_host_def sample_options_def
  sample_ctx_def changed_map_def twice_page_def twice_doc_def once_page_def once_doc_def
  sample_stream_def sample_next_def

lemmas site_defs =
  edited_fetch_def empty_fetch_def two_fetch_def amp_map_def amp_written_def amp_fetch_def

lemmas path_defs =
  externalImportMapAbsolutePath_def path_isAbsolute_def path_join_def path_normalize_def
  path_resolve_def path_dirname_def normalizeStringPosix_def

lemmas transform_defs =
  element_handler_def getAttribute_def removeAttribute_def setInnerContent_def import_json_def
  transformResponse_def

lemmas middleware_defs =
  createMiddleware_def after_next_def response_is_def dispatch_def install_transformed_def
  readStreamToString_def response_bytes_def not_supported_message_def drained_def

text \<open>
  C1. For a script element of type \<^verbatim>\<open>importmap\<close> with a \<^verbatim>\<open>src\<close>, the handler imports exactly
  one path: the join of the served directory and the \<^verbatim>\<open>src\<close> when the \<^verbatim>\<open>src\<close> is absolute,
  and otherwise the \<^verbatim>\<open>src\<close> resolved against the directory of the requested document.
  The log shows the import (and the file read, when the path is not registered yet).
  With served root \<^verbatim>\<open>/site\<close>, document \<^verbatim>\<open>/site/pages/a.html\<close> and \<^verbatim>\<open>src="../maps/m.json"\<close> the
  path is \<^verbatim>\<open>/site/maps/m.json\<close>, whatever the working directory.
\<close>

theorem import_map_path_resolution:
  "(tagName el = ''script'' \<and> getAttribute el ''type'' = Some ''importmap''
      \<and> getAttribute el ''src'' = Some src
    \<longrightarrow> (let resolved = (if path_isAbsolute src then path_join root src
                           else path_resolve (cwd h) (path_dirname html) src)
         in log (snd (element_handler sf root html el h))
              = log h @ ImportCalled resolved
                  # (if registry h resolved = None then [FileRead resolved] else [])))
   \<and> externalImportMapAbsolutePath wd ''/site'' ''/site/pages/a.html'' ''../maps/m.json''
       = ''/site/maps/m.json''"
proof
  show "tagName el = ''script'' \<and> getAttribute el ''type'' = Some ''importmap''
      \<and> getAttribute el ''src'' = Some src
    \<longrightarrow> (let resolved = (if path_isAbsolute src then path_join root src
                           else path_resolve (cwd h) (path_dirname html) src)
         in log (snd (element_handler sf root html el h))
              = log h @ ImportCalled resolved
                  # (if registry h resolved = None then [FileRead resolved] else []))"
    by (auto simp: element_handler_def import_json_def externalImportMapAbsolutePath_def Let_def
        split: option.splits sum.splits)
  show "externalImportMapAbsolutePath wd ''/site'' ''/site/pages/a.html'' ''../maps/m.json''
       = ''/site/maps/m.json''"
    by (simp add: path_defs)
qed

theorem import_map_path_resolution_witness:
  "tagName \<lparr>tagName = ''script'', attributes = [(''type'', ''importmap''), (''src'', ''../maps/m.json'')],
            innerContent = None\<rparr> = ''script''
   \<and> getAttribute \<lparr>tagName = ''script'', attributes = [(''type'', ''importmap''), (''src'', ''../maps/m.json'')],
            innerContent = None\<rparr> ''type'' = Some ''importmap''
   \<and> getAttribute \<lparr>tagName = ''script'', attributes = [(''type'', ''importmap''), (''src'', ''../maps/m.json'')],
            innerContent = None\<rparr> ''src'' = Some ''../maps/m.json''
   \<and> log (snd (element_handler (\<lambda>j. j) ''/site'' ''/site/pages/a.html''
                 \<lparr>tagName = ''script'',
                  attributes = [(''type'', ''importmap''), (''src'', ''../maps/m.json'')],
                  innerContent = None\<rparr> sample_host))
       = [ImportCalled ''/site/maps/m.json'', FileRead ''/site/maps/m.json'']"
  using import_map_path_resolution
    [of "\<lparr>tagName = ''script'',
          attributes = [(''type'', ''importmap''), (''src'', ''../maps/m.json'')],
          innerContent = None\<rparr>"
        "''../maps/m.json''" "''/site''" sample_host "''/site/pages/a.html''" "\<lambda>j. j" "''/srv''"]
  by (simp add: getAttribute_def sample_host_def path_isAbsolute_def path_resolve_def
      path_dirname_def normalizeStringPosix_def Let_def)

text \<open>
  C2. An element whose tag is not \<^verbatim>\<open>script\<close>, or that has no \<^verbatim>\<open>type\<close>, or whose \<^verbatim>\<open>type\<close> is
  not \<^verbatim>\<open>importmap\<close>, or that has no \<^verbatim>\<open>src\<close>, is left as it is: the handler returns the
  handle unchanged and touches nothing of the host, and the rewriter keeps the tag and
  the attributes and goes on into the children. Read from right to left: an element
  that the handler modifies is a script of type \<^verbatim>\<open>importmap\<close> with a \<^verbatim>\<open>src\<close>.
\<close>

theorem unmatched_element_unmodified:
  assumes "tagName el \<noteq> ''script'' \<or> getAttribute el ''type'' = None
           \<or> getAttribute el ''type'' \<noteq> Some ''importmap'' \<or> getAttribute el ''src'' = None"
  shows "element_handler sf root html el h = (Inr el, h)
       \<and> rewrite_node (element_handler sf root html) (Element (tagName el) (attributes el) cs) h
           = (case rewrite_nodes (element_handler sf root html) cs h of
                (Inl e, h') \<Rightarrow> (Inl e, h')
              | (Inr cs', h') \<Rightarrow> (Inr (Element (tagName el) (attributes el) cs'), h'))"
proof -
  from assms have "\<not> matched (tagName el) (attributes el)"
    by (auto simp: matched_def getAttribute_def)
  then show ?thesis
    by (simp add: handler_skip split: prod.split sum.split)
qed

theorem unmatched_element_unmodified_witness:
  "getAttribute \<lparr>tagName = ''script'', attributes = [(''type'', ''importmap'')], innerContent = None\<rparr>
     ''src'' = None
   \<and> rewrite_nodes (element_handler (\<lambda>j. j) ''/site'' ''/site/index.html'')
        [Element ''script'' [(''type'', ''importmap'')] [Text changed_map]] sample_host
      = (Inr [Element ''script'' [(''type'', ''importmap'')] [Text changed_map]], sample_host)"
  using unmatched_element_unmodified
    [of "\<lparr>tagName = ''script'', attributes = [(''type'', ''importmap'')], innerContent = None\<rparr>"
        "\<lambda>j. j" "''/site''" "''/site/index.html''" sample_host "[Text changed_map]"]
  by (simp add: getAttribute_def)


text \<open>
  C3, as stated, fails, in three ways. An import map that holds an ampersand comes out
  with the ampersand written as an entity, which is not its JSON text. A script with
  two \<^verbatim>\<open>src\<close> attributes comes out with the second one. And after an edit of the file a
  second transform inlines the module loaded first, not the content of the file.
\<close>

theorem inlined_content_counterexample:
  "fst (transformResponse sample_engine ''/site'' ''/site/index.html'' (map of_char sample_page)
         (sample_host\<lparr>fetch := amp_fetch\<rparr>))
     = Inr (map of_char (''<script type=importmap>'' @ amp_written @ ''</script>''))
   \<and> amp_fetch ''/site/m.json'' = Inr amp_map
   \<and> amp_written \<noteq> json_stringify sample_engine amp_map
   \<and> fst (transformResponse sample_engine ''/site'' ''/site/index.html'' (map of_char twice_page)
           (sample_host\<lparr>fetch := two_fetch\<rparr>))
       = Inr (map of_char ''<script type=importmap src=/n.json>{}</script>'')
   \<and> fst (transformResponse sample_engine ''/site'' ''/site/index.html'' (map of_char sample_page)
           ((snd (transformResponse sample_engine ''/site'' ''/site/index.html''
                    (map of_char sample_page) sample_host))\<lparr>fetch := edited_fetch\<rparr>))
       = Inr (map of_char ''<script type=importmap>{}</script>'')
   \<and> edited_fetch ''/site/m.json'' = Inr changed_map
   \<and> json_stringify sample_engine changed_map \<noteq> ''{}''"
proof -
  have amp: "fst (transformResponse sample_engine ''/site'' ''/site/index.html'' (map of_char sample_page)
         (sample_host\<lparr>fetch := amp_fetch\<rparr>))
     = Inr (map of_char (''<script type=importmap>'' @ amp_written @ ''</script>''))"
    by (simp add: sample_defs site_defs transform_defs path_defs)
  have amp_file: "amp_fetch ''/site/m.json'' = Inr amp_map"
    by (simp add: amp_fetch_def)
  have amp_differs: "amp_written \<noteq> json_stringify sample_engine amp_map"
    by (simp add: sample_engine_def amp_written_def amp_map_def)
  have twice: "fst (transformResponse sample_engine ''/site'' ''/site/index.html'' (map of_char twice_page)
           (sample_host\<lparr>fetch := two_fetch\<rparr>))
       = Inr (map of_char ''<script type=importmap src=/n.json>{}</script>'')"
    by (simp add: sample_defs site_defs transform_defs path_defs)
  have first: "snd (transformResponse sample_engine ''/site'' ''/site/index.html''
                      (map of_char sample_page) sample_host)
      = sample_host\<lparr>registry := [''/site/m.json'' \<mapsto> ''{}''],
                     log := [ImportCalled ''/site/m.json'', FileRead ''/site/m.json'']\<rparr>"
    by (simp add: sample_defs transform_defs path_defs)
  have stale: "fst (transformResponse sample_engine ''/site'' ''/site/index.html'' (map of_char sample_page)
           (sample_host\<lparr>registry := [''/site/m.json'' \<mapsto> ''{}''],
                        log := [ImportCalled ''/site/m.json'', FileRead ''/site/m.json''],
                        fetch := edited_fetch\<rparr>))
       = Inr (map of_char ''<script type=importmap>{}</script>'')"
    by (simp add: sample_defs transform_defs path_defs)
  have edited: "edited_fetch ''/site/m.json'' = Inr changed_map"
    by (simp add: edited_fetch_def)
  have changed: "json_stringify sample_engine changed_map \<noteq> ''{}''"
    by (simp add: sample_engine_def changed_map_def)
  from amp amp_file amp_differs twice first stale edited changed show ?thesis
    by simp
qed

text \<open>
  C3, amended. Take a matched element whose import yields a module: the module
  registered for its path, or for a path that is not registered the parse of the file.
  When the element has one \<^verbatim>\<open>src\<close> attribute and the \<^verbatim>\<open>JSON.stringify\<close> text of the module
  holds none of \<^verbatim>\<open>&\<close>, \<^verbatim>\<open><\<close> and \<^verbatim>\<open>>\<close>, the element comes out without \<^verbatim>\<open>src\<close> attribute and
  with that text as its only content. When all matched elements of a document are so,
  a transform that succeeds returns the serialisation of the document with every
  matched element inlined so and everything else (text, other elements, other
  attributes, order) as it was parsed.
\<close>

theorem matched_element_inlined:
  "(matched t as
      \<and> (registry h (externalImportMapAbsolutePath (cwd h) root html (the (map_of as ''src'')))
            = Some v
          \<or> registry h (externalImportMapAbsolutePath (cwd h) root html (the (map_of as ''src'')))
              = None
            \<and> fetch h (externalImportMapAbsolutePath (cwd h) root html (the (map_of as ''src'')))
                = Inr v)
      \<and> length (filter (\<lambda>(k, v). k = ''src'') as) = 1
      \<and> plain (json_stringify eng v)
    \<longrightarrow> fst (rewrite_node (element_handler (json_stringify eng) root html) (Element t as cs) h)
          = Inr (Element t (without_src as) [Text (json_stringify eng v)])
        \<and> map_of (without_src as) ''src'' = None)
   \<and> (transformResponse eng root html initialResponse h = (Inr transformed, h')
      \<and> list_all single_src (parse_html eng initialResponse)
      \<and> (\<forall>p \<in> set (concat (map (import_paths (externalImportMapAbsolutePath (cwd h) root html))
                                 (parse_html eng initialResponse))).
            plain (json_stringify eng (the (loaded h p))))
    \<longrightarrow> transformed
          = serialize_html eng
              (map (inline_node without_src (externalImportMapAbsolutePath (cwd h) root html)
                      (\<lambda>p. json_stringify eng (the (loaded h p))))
                 (parse_html eng initialResponse)))"
proof (rule conjI; rule impI)
  let ?p = "externalImportMapAbsolutePath (cwd h) root html (the (map_of as ''src''))"
  assume a: "matched t as
      \<and> (registry h ?p = Some v \<or> registry h ?p = None \<and> fetch h ?p = Inr v)
      \<and> length (filter (\<lambda>(k, v). k = ''src'') as) = 1
      \<and> plain (json_stringify eng v)"
  then have m: "matched t as" and l: "loaded h ?p = Some v"
    and one: "remove_first ''src'' as = without_src as"
    and esc: "escape_text (json_stringify eng v) = json_stringify eng v"
    by (auto simp: loaded_def single_remove_first plain_escape)
  from handler_ok [OF m l, of "json_stringify eng"] one esc
  have "fst (rewrite_node (element_handler (json_stringify eng) root html) (Element t as cs) h)
          = Inr (Element t (without_src as) [Text (json_stringify eng v)])"
    by auto
  then show "fst (rewrite_node (element_handler (json_stringify eng) root html) (Element t as cs) h)
          = Inr (Element t (without_src as) [Text (json_stringify eng v)])
        \<and> map_of (without_src as) ''src'' = None"
    by (simp add: map_of_without_src)
next
  let ?pf = "externalImportMapAbsolutePath (cwd h) root html"
  let ?doc = "parse_html eng initialResponse"
  assume a: "transformResponse eng root html initialResponse h = (Inr transformed, h')
      \<and> list_all single_src ?doc
      \<and> (\<forall>p \<in> set (concat (map (import_paths ?pf) ?doc)).
            plain (json_stringify eng (the (loaded h p))))"
  then obtain out where
    run: "rewrite_nodes (element_handler (json_stringify eng) root html) ?doc h = (Inr out, h')"
    and ser: "transformed = serialize_html eng out"
    by (auto simp: transformResponse_def split: prod.splits sum.splits)
  from rewrite_nodes_success [OF run]
  have out: "out = map (inline_node (remove_first ''src'') ?pf
                          (\<lambda>p. escape_text (json_stringify eng (the (loaded h p))))) ?doc"
    by simp
  have "map (inline_node (remove_first ''src'') ?pf
               (\<lambda>p. escape_text (json_stringify eng (the (loaded h p))))) ?doc
          = map (inline_node without_src ?pf (\<lambda>p. json_stringify eng (the (loaded h p)))) ?doc"
  proof (rule map_cong [OF refl])
    fix n assume n: "n \<in> set ?doc"
    with a have "single_src n"
      and "\<forall>p \<in> set (import_paths ?pf n). plain (json_stringify eng (the (loaded h p)))"
      by (auto simp: list_all_iff)
    then show "inline_node (remove_first ''src'') ?pf
                 (\<lambda>p. escape_text (json_stringify eng (the (loaded h p)))) n
               = inline_node without_src ?pf (\<lambda>p. json_stringify eng (the (loaded h p))) n"
      by (rule inline_node_plain)
  qed
  with out ser show "transformed
          = serialize_html eng
              (map (inline_node without_src ?pf (\<lambda>p. json_stringify eng (the (loaded h p)))) ?doc)"
    by simp
qed

theorem matched_element_inlined_witness:
  "matched ''script'' [(''type'', ''importmap''), (''src'', ''/m.json'')]
   \<and> registry sample_host ''/site/m.json'' = None
   \<and> fetch sample_host ''/site/m.json'' = Inr ''{}''
   \<and> plain (json_stringify sample_engine ''{}'')
   \<and> list_all single_src (parse_html sample_engine (map of_char sample_page))
   \<and> fst (rewrite_node (element_handler (json_stringify sample_engine) ''/site'' ''/site/index.html'')
            (Element ''script'' [(''type'', ''importmap''), (''src'', ''/m.json'')] []) sample_host)
       = Inr (Element ''script'' [(''type'', ''importmap'')] [Text ''{}''])
   \<and> fst (transformResponse sample_engine ''/site'' ''/site/index.html'' (map of_char sample_page)
            sample_host)
       = Inr (map of_char ''<script type=importmap>{}</script>'')"
proof -
  have m: "matched ''script'' [(''type'', ''importmap''), (''src'', ''/m.json'')]"
    by (simp add: matched_def)
  have r: "registry sample_host ''/site/m.json'' = None"
    and f: "fetch sample_host ''/site/m.json'' = Inr ''{}''"
    and wd: "cwd sample_host = ''/srv''"
    by (simp_all add: sample_host_def)
  have pl: "plain (json_stringify sample_engine ''{}'')"
    by (simp add: plain_def sample_engine_def)
  have p: "externalImportMapAbsolutePath ''/srv'' ''/site'' ''/site/index.html'' ''/m.json''
             = ''/site/m.json''"
    by (simp add: path_defs)
  have doc: "parse_html sample_engine (map of_char sample_page) = sample_doc"
    by (simp add: sample_engine_def)
  have single: "list_all single_src sample_doc"
    by (simp add: sample_doc_def matched_def)
  have paths: "concat (map (import_paths (externalImportMapAbsolutePath ''/srv'' ''/site''
                  ''/site/index.html'')) sample_doc) = [''/site/m.json'']"
    by (simp add: sample_doc_def matched_def path_defs)
  have ld: "loaded sample_host ''/site/m.json'' = Some ''{}''"
    by (simp add: loaded_def sample_host_def)
  obtain transformed h' where
    t: "transformResponse sample_engine ''/site'' ''/site/index.html'' (map of_char sample_page)
          sample_host = (Inr transformed, h')"
    by (simp add: sample_defs transform_defs path_defs)
  from matched_element_inlined
    [of "''script''" "[(''type'', ''importmap''), (''src'', ''/m.json'')]" sample_host
        "''/site''" "''/site/index.html''" "''{}''" sample_engine "[]"
        "map of_char sample_page" transformed h']
    m r f wd pl p doc single paths ld t
  show ?thesis
    by (simp add: without_src_def sample_doc_def matched_def sample_engine_def)
qed

text \<open>
  C4. When the response that the rest of the pipeline has produced is not of type
  \<^verbatim>\<open>text/html\<close>, the middleware returns with the context and the host as they are: no
  import, no file read, \<^verbatim>\<open>shouldRun\<close> not called. When the response is HTML and
  \<^verbatim>\<open>shouldRun\<close> is given and returns false, the context is as it was and the host has
  seen the call of \<^verbatim>\<open>shouldRun\<close> and nothing else. When the response is HTML and
  \<^verbatim>\<open>shouldRun\<close> is absent, the dispatch runs. A call of \<^verbatim>\<open>shouldRun\<close> by the
  middleware implies an HTML response.
\<close>

theorem gate_leaves_response:
  assumes "next c0 h0 = (Returned, c, h)"
  shows "(\<not> response_is c ''text/html''
            \<longrightarrow> createMiddleware eng opts next c0 h0 = (Returned, c, h))
       \<and> (response_is c ''text/html'' \<and> shouldRun opts = Some f \<and> \<not> f c
            \<longrightarrow> createMiddleware eng opts next c0 h0
                  = (Returned, c, h\<lparr>log := log h @ [ShouldRunCalled]\<rparr>))
       \<and> (response_is c ''text/html'' \<and> shouldRun opts = None
            \<longrightarrow> createMiddleware eng opts next c0 h0 = dispatch eng opts c h)
       \<and> (ShouldRunCalled \<in> set (log (snd (snd (createMiddleware eng opts next c0 h0))))
            \<and> ShouldRunCalled \<notin> set (log h)
            \<longrightarrow> response_is c ''text/html'')"
  using assms by (auto simp: createMiddleware_def after_next_def)

theorem gate_leaves_response_witness:
  "createMiddleware sample_engine sample_options sample_next
     (sample_ctx\<lparr>response_type := ''application/json''\<rparr>) sample_host
     = (Returned, sample_ctx\<lparr>response_type := ''application/json''\<rparr>, sample_host)
   \<and> createMiddleware sample_engine (sample_options\<lparr>shouldRun := Some (\<lambda>c. False)\<rparr>)
       sample_next sample_ctx sample_host
     = (Returned, sample_ctx, sample_host\<lparr>log := [ShouldRunCalled]\<rparr>)
   \<and> createMiddleware sample_engine sample_options sample_next sample_ctx sample_host
     = dispatch sample_engine sample_options sample_ctx sample_host
   \<and> response_is sample_ctx ''text/html''"
proof -
  have html: "response_is sample_ctx ''text/html''"
    by (simp add: response_is_def sample_ctx_def)
  have other: "\<not> response_is (sample_ctx\<lparr>response_type := ''application/json''\<rparr>) ''text/html''"
    by (simp add: response_is_def)
  have log: "log sample_host = []"
    by (simp add: sample_host_def)
  have run: "shouldRun sample_options = None"
    by (simp add: sample_options_def)
  from gate_leaves_response
         [of sample_next "sample_ctx\<lparr>response_type := ''application/json''\<rparr>" sample_host
             "sample_ctx\<lparr>response_type := ''application/json''\<rparr>" sample_host
             sample_engine sample_options "\<lambda>c. False"]
       gate_leaves_response
         [of sample_next sample_ctx sample_host sample_ctx sample_host
             sample_engine "sample_options\<lparr>shouldRun := Some (\<lambda>c. False)\<rparr>" "\<lambda>c. False"]
       gate_leaves_response
         [of sample_next sample_ctx sample_host sample_ctx sample_host
             sample_engine sample_options "\<lambda>c. False"]
       html other log run
  show ?thesis by (simp add: sample_next_def)
qed

text \<open>
  C5. On a body that is neither a string nor a \<^verbatim>\<open>Uint8Array\<close> nor a \<^verbatim>\<open>ReadStream\<close> the
  dispatch throws the \<^verbatim>\<open>Not supported!\<close> error, with the context and the host as they
  were; an HTML response that passes the run predicate (absent, or true) reaches the
  dispatch, so the middleware throws that error, leaves the context alone and loads
  nothing.
\<close>

theorem unsupported_body_throws:
  assumes "response_body c = BOther name"
  shows "dispatch eng opts c h = (Threw (Error (not_supported_message name)), c, h)
       \<and> (response_is c ''text/html''
            \<and> (shouldRun opts = None \<or> (\<exists>f. shouldRun opts = Some f \<and> f c))
          \<longrightarrow> fst (after_next eng opts c h) = Threw (Error (not_supported_message name))
              \<and> fst (snd (after_next eng opts c h)) = c
              \<and> registry (snd (snd (after_next eng opts c h))) = registry h)"
  using assms by (auto simp: dispatch_def after_next_def)

theorem unsupported_body_throws_witness:
  "response_body (sample_ctx\<lparr>response_body := BOther None\<rparr>) = BOther None
   \<and> response_is (sample_ctx\<lparr>response_body := BOther None\<rparr>) ''text/html''
   \<and> shouldRun sample_options = None
   \<and> after_next sample_engine sample_options (sample_ctx\<lparr>response_body := BOther None\<rparr>) sample_host
       = (Threw (Error (''Not supported! response.body type '' @ [CHR 0x27] @ ''undefined'' @ [CHR 0x27])),
          sample_ctx\<lparr>response_body := BOther None\<rparr>, sample_host)"
proof -
  have b: "response_body (sample_ctx\<lparr>response_body := BOther None\<rparr>) = BOther None"
    by simp
  have html: "response_is (sample_ctx\<lparr>response_body := BOther None\<rparr>) ''text/html''"
    by (simp add: response_is_def sample_ctx_def)
  have run: "shouldRun sample_options = None"
    by (simp add: sample_options_def)
  from unsupported_body_throws [OF b, of sample_engine sample_options sample_host] html run
  show ?thesis
    by (simp add: after_next_def not_supported_message_def)
qed

text \<open>
  C6, as stated, fails: the sample page is requested, the import map file is deleted,
  the page is requested again; the second request does not fail, it returns the page
  with the import map that the first request loaded.
\<close>

theorem unreadable_file_counterexample:
  "fst (createMiddleware sample_engine sample_options sample_next sample_ctx
      ((snd (snd (createMiddleware sample_engine sample_options sample_next sample_ctx sample_host)))
         \<lparr>fetch := empty_fetch\<rparr>))
     = Returned
   \<and> response_body (fst (snd (createMiddleware sample_engine sample_options sample_next sample_ctx
      ((snd (snd (createMiddleware sample_engine sample_options sample_next sample_ctx sample_host)))
         \<lparr>fetch := empty_fetch\<rparr>))))
     = BString ''<script type=importmap>{}</script>''
   \<and> empty_fetch ''/site/m.json'' = Inl ReferenceLoadFailure"
proof -
  have first: "snd (snd (createMiddleware sample_engine sample_options sample_next sample_ctx sample_host))
      = sample_host\<lparr>registry := [''/site/m.json'' \<mapsto> ''{}''],
                     log := [ImportCalled ''/site/m.json'', FileRead ''/site/m.json'']\<rparr>"
    by (simp add: sample_defs transform_defs path_defs middleware_defs)
  have outcome: "fst (createMiddleware sample_engine sample_options sample_next sample_ctx
      (sample_host\<lparr>registry := [''/site/m.json'' \<mapsto> ''{}''],
                   log := [ImportCalled ''/site/m.json'', FileRead ''/site/m.json''],
                   fetch := empty_fetch\<rparr>))
     = Returned"
    by (simp add: sample_defs transform_defs path_defs middleware_defs)
  have second: "response_body (fst (snd (createMiddleware sample_engine sample_options sample_next sample_ctx
      (sample_host\<lparr>registry := [''/site/m.json'' \<mapsto> ''{}''],
                   log := [ImportCalled ''/site/m.json'', FileRead ''/site/m.json''],
                   fetch := empty_fetch\<rparr>))))
     = BString ''<script type=importmap>{}</script>''"
    by (simp add: sample_defs transform_defs path_defs middleware_defs char_of_eq_iff)
  have gone: "empty_fetch ''/site/m.json'' = Inl ReferenceLoadFailure"
    by (simp add: empty_fetch_def)
  from first outcome second gone show ?thesis
    by simp
qed

text \<open>
  C6, amended. Take an HTML response that passes the run predicate, with a supported
  body whose document holds a matched element whose path is not registered and whose
  file cannot be read or parsed. The middleware throws an error of the loader, and no
  body and no type is assigned: the context is the one that the pipeline left, with a
  streamed body read to its end. When every matched element of a document has its path
  registered, the transform succeeds whatever the files are.
\<close>

theorem failed_import_fails_request:
  "(next c0 h0 = (Returned, c, h)
      \<and> response_is c ''text/html''
      \<and> (shouldRun opts = None \<or> (\<exists>f. shouldRun opts = Some f \<and> f c))
      \<and> response_bytes eng (response_body c) = Some b
      \<and> p \<in> set (concat (map (import_paths
                   (externalImportMapAbsolutePath (cwd h) (servedDirectoryAbsolutePath opts)
                      (path_join (servedDirectoryAbsolutePath opts)
                         (getFilePathOfRequestUrl opts (request_url c)))))
                 (parse_html eng b)))
      \<and> registry h p = None
      \<and> fetch h p = Inl e0
    \<longrightarrow> (\<exists>e h'. createMiddleware eng opts next c0 h0 = (Threw e, after_read c, h')
                \<and> (\<exists>q. fetch h q = Inl e)))
   \<and> ((\<forall>q \<in> set (concat (map (import_paths (externalImportMapAbsolutePath (cwd h) root html))
                                (parse_html eng b))).
          registry h q \<noteq> None)
    \<longrightarrow> (\<exists>out h'. transformResponse eng root html b h = (Inr out, h')))"
proof (rule conjI; rule impI)
  let ?root = "servedDirectoryAbsolutePath opts"
  let ?html = "path_join ?root (getFilePathOfRequestUrl opts (request_url c))"
  assume a: "next c0 h0 = (Returned, c, h)
      \<and> response_is c ''text/html''
      \<and> (shouldRun opts = None \<or> (\<exists>f. shouldRun opts = Some f \<and> f c))
      \<and> response_bytes eng (response_body c) = Some b
      \<and> p \<in> set (concat (map (import_paths (externalImportMapAbsolutePath (cwd h) ?root ?html))
                 (parse_html eng b)))
      \<and> registry h p = None
      \<and> fetch h p = Inl e0"
  then have nx: "next c0 h0 = (Returned, c, h)" and html: "response_is c ''text/html''"
    and run: "shouldRun opts = None \<or> (\<exists>f. shouldRun opts = Some f \<and> f c)"
    and bytes: "response_bytes eng (response_body c) = Some b"
    and p: "p \<in> set (concat (map (import_paths (externalImportMapAbsolutePath (cwd h) ?root ?html))
                 (parse_html eng b)))"
    and l: "loaded h p = None"
    by (simp_all add: loaded_def)
  have fails: "\<exists>e h'. dispatch eng opts c k = (Threw e, after_read c, h') \<and> (\<exists>q. fetch h q = Inl e)"
    if k: "cwd k = cwd h" "loaded k = loaded h" "fetch k = fetch h" for k
  proof -
    from p l k
    have "\<exists>p \<in> set (concat (map (import_paths (externalImportMapAbsolutePath (cwd k) ?root ?html))
                                (parse_html eng b))). loaded k p = None"
      by auto
    from rewrite_nodes_fail [OF this, of "json_stringify eng"] obtain e h' where
      "rewrite_nodes (element_handler (json_stringify eng) ?root ?html) (parse_html eng b) k = (Inl e, h')"
      "\<exists>q. fetch k q = Inl e"
      by blast
    then have "transformResponse eng ?root ?html b k = (Inl e, h')" "\<exists>q. fetch h q = Inl e"
      using k by (simp_all add: transformResponse_def)
    with dispatch_bytes [OF bytes, of opts k] show ?thesis
      by (simp add: install_transformed_def)
  qed
  from run show "\<exists>e h'. createMiddleware eng opts next c0 h0 = (Threw e, after_read c, h')
                \<and> (\<exists>q. fetch h q = Inl e)"
  proof
    assume "shouldRun opts = None"
    with nx html have "createMiddleware eng opts next c0 h0 = dispatch eng opts c h"
      by (simp add: createMiddleware_def after_next_def)
    with fails [of h] show ?thesis
      by simp
  next
    assume "\<exists>f. shouldRun opts = Some f \<and> f c"
    with nx html
    have "createMiddleware eng opts next c0 h0
            = dispatch eng opts c (h\<lparr>log := log h @ [ShouldRunCalled]\<rparr>)"
      by (auto simp: createMiddleware_def after_next_def)
    with fails [of "h\<lparr>log := log h @ [ShouldRunCalled]\<rparr>"] show ?thesis
      by (simp add: loaded_log)
  qed
next
  assume "\<forall>q \<in> set (concat (map (import_paths (externalImportMapAbsolutePath (cwd h) root html))
                                (parse_html eng b))). registry h q \<noteq> None"
  then show "\<exists>out h'. transformResponse eng root html b h = (Inr out, h')"
    by (rule rewrite_nodes_all_registered)
qed

theorem failed_import_fails_request_witness:
  "sample_next sample_ctx (sample_host\<lparr>fetch := empty_fetch\<rparr>)
     = (Returned, sample_ctx, sample_host\<lparr>fetch := empty_fetch\<rparr>)
   \<and> response_is sample_ctx ''text/html''
   \<and> shouldRun sample_options = None
   \<and> response_bytes sample_engine (response_body sample_ctx) = Some (map of_char sample_page)
   \<and> registry (sample_host\<lparr>fetch := empty_fetch\<rparr>) ''/site/m.json'' = None
   \<and> fetch (sample_host\<lparr>fetch := empty_fetch\<rparr>) ''/site/m.json'' = Inl ReferenceLoadFailure
   \<and> fst (createMiddleware sample_engine sample_options sample_next sample_ctx
            (sample_host\<lparr>fetch := empty_fetch\<rparr>)) = Threw ReferenceLoadFailure
   \<and> fst (snd (createMiddleware sample_engine sample_options sample_next sample_ctx
            (sample_host\<lparr>fetch := empty_fetch\<rparr>))) = sample_ctx
   \<and> registry (sample_host\<lparr>registry := [''/site/m.json'' \<mapsto> ''{}''], fetch := empty_fetch\<rparr>)
        ''/site/m.json'' \<noteq> None
   \<and> fst (transformResponse sample_engine ''/site'' ''/site/index.html'' (map of_char sample_page)
            (sample_host\<lparr>registry := [''/site/m.json'' \<mapsto> ''{}''], fetch := empty_fetch\<rparr>))
       = Inr (map of_char ''<script type=importmap>{}</script>'')"
proof -
  let ?h = "sample_host\<lparr>fetch := empty_fetch\<rparr>"
  let ?k = "sample_host\<lparr>registry := [''/site/m.json'' \<mapsto> ''{}''], fetch := empty_fetch\<rparr>"
  have n: "sample_next sample_ctx ?h = (Returned, sample_ctx, ?h)"
    by (simp add: sample_next_def)
  have html: "response_is sample_ctx ''text/html''"
    by (simp add: response_is_def sample_ctx_def)
  have run: "shouldRun sample_options = None"
    by (simp add: sample_options_def)
  have b: "response_bytes sample_engine (response_body sample_ctx) = Some (map of_char sample_page)"
    by (simp add: response_bytes_def sample_ctx_def sample_engine_def)
  have p: "''/site/m.json'' \<in> set (concat (map (import_paths
                   (externalImportMapAbsolutePath (cwd ?h) (servedDirectoryAbsolutePath sample_options)
                      (path_join (servedDirectoryAbsolutePath sample_options)
                         (getFilePathOfRequestUrl sample_options (request_url sample_ctx)))))
                 (parse_html sample_engine (map of_char sample_page))))"
    by (simp add: sample_defs matched_def path_defs)
  have r: "registry ?h ''/site/m.json'' = None"
    by (simp add: sample_host_def)
  have f: "fetch ?h ''/site/m.json'' = Inl ReferenceLoadFailure"
    by (simp add: empty_fetch_def)
  have same: "after_read sample_ctx = sample_ctx"
    by (simp add: after_read_def sample_ctx_def)
  have all: "\<forall>q \<in> set (concat (map (import_paths
                   (externalImportMapAbsolutePath (cwd ?k) ''/site'' ''/site/index.html''))
                 (parse_html sample_engine (map of_char sample_page)))). registry ?k q \<noteq> None"
    by (simp add: sample_defs matched_def path_defs)
  have reg: "registry ?k ''/site/m.json'' \<noteq> None"
    by simp
  have out: "fst (transformResponse sample_engine ''/site'' ''/site/index.html''
                    (map of_char sample_page) ?k)
               = Inr (map of_char ''<script type=importmap>{}</script>'')"
    by (simp add: sample_defs transform_defs path_defs)
  from failed_import_fails_request
         [of sample_next sample_ctx ?h sample_ctx ?h sample_options sample_engine
             "map of_char sample_page" "''/site/m.json''" ReferenceLoadFailure "''/site''"
             "''/site/index.html''"]
       n html run b p r f
  obtain e h' where
    "createMiddleware sample_engine sample_options sample_next sample_ctx ?h
       = (Threw e, after_read sample_ctx, h')"
    "\<exists>q. fetch ?h q = Inl e"
    by blast
  with n html run b r f same reg out show ?thesis
    by (auto simp: empty_fetch_def)
qed

text \<open>
  C7. Take an HTML text, the buffer of its UTF-8 bytes, and a stream that has not been
  read, ends normally, and whose chunks decode to the text. The dispatch does the same
  on the three bodies: either it throws the same error in the three cases, leaving the
  body where it was (the stream drained), or it ends in the three cases with the same
  text as the body and \<^verbatim>\<open>text/html\<close> as the type, and in the same host state.
\<close>

theorem representation_equivalence:
  assumes "buffer = utf8_encode eng text"
    and "\<not> consumed stream"
    and "failure stream = None"
    and "utf8_decode eng (concat (chunks stream)) = text"
  shows "(\<exists>e h'. dispatch eng opts (c\<lparr>response_body := BString text\<rparr>) h
                   = (Threw e, c\<lparr>response_body := BString text\<rparr>, h')
              \<and> dispatch eng opts (c\<lparr>response_body := BUint8Array buffer\<rparr>) h
                   = (Threw e, c\<lparr>response_body := BUint8Array buffer\<rparr>, h')
              \<and> dispatch eng opts (c\<lparr>response_body := BReadStream stream\<rparr>) h
                   = (Threw e, c\<lparr>response_body := BReadStream (drained stream)\<rparr>, h'))
       \<or> (\<exists>out h'. dispatch eng opts (c\<lparr>response_body := BString text\<rparr>) h
                     = (Returned, c\<lparr>response_body := BString out, response_type := ''text/html''\<rparr>, h')
              \<and> dispatch eng opts (c\<lparr>response_body := BUint8Array buffer\<rparr>) h
                     = (Returned, c\<lparr>response_body := BString out, response_type := ''text/html''\<rparr>, h')
              \<and> dispatch eng opts (c\<lparr>response_body := BReadStream stream\<rparr>) h
                     = (Returned, c\<lparr>response_body := BString out, response_type := ''text/html''\<rparr>, h'))"
proof -
  let ?root = "servedDirectoryAbsolutePath opts"
  let ?html = "path_join ?root (getFilePathOfRequestUrl opts (request_url c))"
  let ?r = "transformResponse eng ?root ?html (utf8_encode eng text) h"
  have s: "dispatch eng opts (c\<lparr>response_body := BString text\<rparr>) h
             = install_transformed eng (c\<lparr>response_body := BString text\<rparr>) ?r"
    by (simp add: dispatch_def)
  have b: "dispatch eng opts (c\<lparr>response_body := BUint8Array buffer\<rparr>) h
             = install_transformed eng (c\<lparr>response_body := BUint8Array buffer\<rparr>) ?r"
    using assms(1) by (simp add: dispatch_def)
  have r: "dispatch eng opts (c\<lparr>response_body := BReadStream stream\<rparr>) h
             = install_transformed eng (c\<lparr>response_body := BReadStream (drained stream)\<rparr>) ?r"
    using assms(2,3,4) by (simp add: dispatch_def readStreamToString_def)
  obtain res h' where res: "?r = (res, h')"
    by (cases ?r)
  show ?thesis
  proof (cases res)
    case (Inl e)
    with s b r res show ?thesis
      by (simp add: install_transformed_def)
  next
    case (Inr transformed)
    with s b r res show ?thesis
      by (auto simp: install_transformed_def)
  qed
qed

theorem representation_equivalence_witness:
  "map of_char sample_page = utf8_encode sample_engine sample_page
   \<and> \<not> consumed sample_stream
   \<and> failure sample_stream = None
   \<and> utf8_decode sample_engine (concat (chunks sample_stream)) = sample_page
   \<and> dispatch sample_engine sample_options
        (sample_ctx\<lparr>response_body := BUint8Array (map of_char sample_page)\<rparr>) sample_host
       = dispatch sample_engine sample_options
           (sample_ctx\<lparr>response_body := BString sample_page\<rparr>) sample_host
   \<and> dispatch sample_engine sample_options
        (sample_ctx\<lparr>response_body := BReadStream sample_stream\<rparr>) sample_host
       = dispatch sample_engine sample_options
           (sample_ctx\<lparr>response_body := BString sample_page\<rparr>) sample_host
   \<and> response_body (fst (snd (dispatch sample_engine sample_options
           (sample_ctx\<lparr>response_body := BString sample_page\<rparr>) sample_host)))
       = BString ''<script type=importmap>{}</script>''"
proof -
  have b: "map of_char sample_page = utf8_encode sample_engine sample_page"
    by (simp add: sample_engine_def)
  have u: "\<not> consumed sample_stream"
    and f: "failure sample_stream = None"
    by (simp_all add: sample_stream_def)
  have d: "utf8_decode sample_engine (concat (chunks sample_stream)) = sample_page"
    by (simp add: sample_engine_def sample_page_def sample_stream_def char_of_eq_iff)
  have ok: "fst (dispatch sample_engine sample_options
              (sample_ctx\<lparr>response_body := BString sample_page\<rparr>) sample_host) = Returned"
    by (simp add: sample_defs transform_defs path_defs middleware_defs char_of_eq_iff)
  have out: "response_body (fst (snd (dispatch sample_engine sample_options
           (sample_ctx\<lparr>response_body := BString sample_page\<rparr>) sample_host)))
       = BString ''<script type=importmap>{}</script>''"
    by (simp add: sample_defs transform_defs path_defs middleware_defs char_of_eq_iff)
  from representation_equivalence [OF b u f d, of sample_options sample_ctx sample_host] ok
  have "dispatch sample_engine sample_options
          (sample_ctx\<lparr>response_body := BUint8Array (map of_char sample_page)\<rparr>) sample_host
        = dispatch sample_engine sample_options
            (sample_ctx\<lparr>response_body := BString sample_page\<rparr>) sample_host
      \<and> dispatch sample_engine sample_options
          (sample_ctx\<lparr>response_body := BReadStream sample_stream\<rparr>) sample_host
        = dispatch sample_engine sample_options
            (sample_ctx\<lparr>response_body := BString sample_page\<rparr>) sample_host"
    by auto
  with b u f d out show ?thesis
    by simp
qed

text \<open>
  C8, as stated, fails: the sample page is requested, the import map file is edited,
  the page is requested again; the second response still carries the import map that
  the first request loaded, not the edited one.
\<close>

theorem second_request_counterexample:
  "response_body (fst (snd (createMiddleware sample_engine sample_options sample_next sample_ctx
      ((snd (snd (createMiddleware sample_engine sample_options sample_next sample_ctx sample_host)))
         \<lparr>fetch := edited_fetch\<rparr>))))
     = BString ''<script type=importmap>{}</script>''
   \<and> response_body (fst (snd (createMiddleware sample_engine sample_options sample_next sample_ctx
      ((snd (snd (createMiddleware sample_engine sample_options sample_next sample_ctx sample_host)))
         \<lparr>fetch := edited_fetch\<rparr>))))
     \<noteq> BString (''<script type=importmap>'' @ changed_map @ ''</script>'')
   \<and> edited_fetch ''/site/m.json'' = Inr changed_map"
proof -
  have first: "snd (snd (createMiddleware sample_engine sample_options sample_next sample_ctx sample_host))
      = sample_host\<lparr>registry := [''/site/m.json'' \<mapsto> ''{}''],
                     log := [ImportCalled ''/site/m.json'', FileRead ''/site/m.json'']\<rparr>"
    by (simp add: sample_defs sample_next_def transform_defs path_defs middleware_defs)
  have second: "response_body (fst (snd (createMiddleware sample_engine sample_options sample_next sample_ctx
      (sample_host\<lparr>registry := [''/site/m.json'' \<mapsto> ''{}''],
                   log := [ImportCalled ''/site/m.json'', FileRead ''/site/m.json''],
                   fetch := edited_fetch\<rparr>))))
     = BString ''<script type=importmap>{}</script>''"
    by (simp add: sample_defs sample_next_def transform_defs path_defs middleware_defs char_of_eq_iff)
  have differ: "''<script type=importmap>{}</script>''
                  \<noteq> ''<script type=importmap>'' @ changed_map @ ''</script>''"
    by (simp add: changed_map_def)
  have edited: "edited_fetch ''/site/m.json'' = Inr changed_map"
    by (simp add: edited_fetch_def)
  from first second differ edited show ?thesis
    by simp
qed

text \<open>
  C8, amended. An import of a path that is not registered yields what reading and
  parsing the file yields at that moment. Once a transform of a document has
  succeeded, a later transform of the same document evaluates each import again but
  reads no file and returns the same output, whatever the files hold by then: the
  modules come from the registry of the loader. The middleware keeps no cache of its
  own.
\<close>

theorem second_request_reuses_module:
  "(registry h p = None \<longrightarrow> fst (import_json p h) = fetch h p)
   \<and> (transformResponse eng root html initialResponse h = (Inr transformed, h1)
      \<longrightarrow> transformResponse eng root html initialResponse (h1\<lparr>fetch := changed\<rparr>)
            = (Inr transformed,
               h1\<lparr>fetch := changed,
                  log := log h1 @ map ImportCalled
                    (concat (map (import_paths (externalImportMapAbsolutePath (cwd h) root html))
                               (parse_html eng initialResponse)))\<rparr>))"
proof (rule conjI; rule impI)
  assume "registry h p = None"
  then show "fst (import_json p h) = fetch h p"
    by (simp add: import_json_def split: sum.splits)
next
  assume "transformResponse eng root html initialResponse h = (Inr transformed, h1)"
  then obtain out where
    first: "rewrite_nodes (element_handler (json_stringify eng) root html)
              (parse_html eng initialResponse) h = (Inr out, h1)"
    and out: "transformed = serialize_html eng out"
    by (auto simp: transformResponse_def split: prod.splits sum.splits)
  from rewrite_nodes_again [OF first, of changed] out
  show "transformResponse eng root html initialResponse (h1\<lparr>fetch := changed\<rparr>)
            = (Inr transformed,
               h1\<lparr>fetch := changed,
                  log := log h1 @ map ImportCalled
                    (concat (map (import_paths (externalImportMapAbsolutePath (cwd h) root html))
                               (parse_html eng initialResponse)))\<rparr>)"
    by (simp add: transformResponse_def)
qed

theorem second_request_reuses_module_witness:
  "registry sample_host ''/site/m.json'' = None
   \<and> fst (import_json ''/site/m.json'' sample_host) = Inr ''{}''
   \<and> transformResponse sample_engine ''/site'' ''/site/index.html'' (map of_char sample_page) sample_host
       = (Inr (map of_char ''<script type=importmap>{}</script>''),
          sample_host\<lparr>registry := [''/site/m.json'' \<mapsto> ''{}''],
                       log := [ImportCalled ''/site/m.json'', FileRead ''/site/m.json'']\<rparr>)
   \<and> transformResponse sample_engine ''/site'' ''/site/index.html'' (map of_char sample_page)
        (sample_host\<lparr>registry := [''/site/m.json'' \<mapsto> ''{}''],
                      log := [ImportCalled ''/site/m.json'', FileRead ''/site/m.json''],
                      fetch := edited_fetch\<rparr>)
       = (Inr (map of_char ''<script type=importmap>{}</script>''),
          sample_host\<lparr>registry := [''/site/m.json'' \<mapsto> ''{}''],
                       fetch := edited_fetch,
                       log := [ImportCalled ''/site/m.json'', FileRead ''/site/m.json'',
                               ImportCalled ''/site/m.json'']\<rparr>)"
proof -
  let ?h1 = "sample_host\<lparr>registry := [''/site/m.json'' \<mapsto> ''{}''],
                          log := [ImportCalled ''/site/m.json'', FileRead ''/site/m.json'']\<rparr>"
  have r: "registry sample_host ''/site/m.json'' = None"
    by (simp add: sample_host_def)
  have f: "fetch sample_host ''/site/m.json'' = Inr ''{}''"
    by (simp add: sample_host_def)
  have first: "transformResponse sample_engine ''/site'' ''/site/index.html'' (map of_char sample_page)
                 sample_host
               = (Inr (map of_char ''<script type=importmap>{}</script>''), ?h1)"
    by (simp add: sample_defs transform_defs path_defs)
  have paths: "concat (map (import_paths
                  (externalImportMapAbsolutePath (cwd sample_host) ''/site'' ''/site/index.html''))
                  (parse_html sample_engine (map of_char sample_page))) = [''/site/m.json'']"
    by (simp add: sample_defs matched_def path_defs)
  from second_request_reuses_module
         [of sample_host "''/site/m.json''" sample_engine "''/site''" "''/site/index.html''"
             "map of_char sample_page" "map of_char ''<script type=importmap>{}</script>''" ?h1
             "edited_fetch"]
       r f first paths
  show ?thesis
    by (simp add: sample_host_def)
qed

text \<open>
  C9. The claim: the output of a successful transform holds no importmap script with a
  \<^verbatim>\<open>src\<close>, and the transform of that output returns it as it is. The code does not keep
  it for a script with two \<^verbatim>\<open>src\<close> attributes. On the site with two import maps, the
  page with such a script comes out with the first import map inlined and the second
  \<^verbatim>\<open>src\<close> still there; the transform of that output imports the second map and returns
  another page.
\<close>

theorem rerun_changes_output:
  "fst (transformResponse sample_engine ''/site'' ''/site/index.html'' (map of_char twice_page)
         (sample_host\<lparr>fetch := two_fetch\<rparr>))
     = Inr (map of_char ''<script type=importmap src=/n.json>{}</script>'')
   \<and> fst (transformResponse sample_engine ''/site'' ''/site/index.html''
           (map of_char ''<script type=importmap src=/n.json>{}</script>'')
           (snd (transformResponse sample_engine ''/site'' ''/site/index.html''
                   (map of_char twice_page) (sample_host\<lparr>fetch := two_fetch\<rparr>))))
       = Inr (map of_char (''<script type=importmap>'' @ changed_map @ ''</script>''))
   \<and> ''<script type=importmap src=/n.json>{}</script>''
       \<noteq> ''<script type=importmap>'' @ changed_map @ ''</script>''"
proof -
  have first: "transformResponse sample_engine ''/site'' ''/site/index.html'' (map of_char twice_page)
                 (sample_host\<lparr>fetch := two_fetch\<rparr>)
     = (Inr (map of_char ''<script type=importmap src=/n.json>{}</script>''),
        sample_host\<lparr>fetch := two_fetch,
                     registry := [''/site/m.json'' \<mapsto> ''{}''],
                     log := [ImportCalled ''/site/m.json'', FileRead ''/site/m.json'']\<rparr>)"
    by (simp add: sample_defs site_defs transform_defs path_defs)
  have second: "fst (transformResponse sample_engine ''/site'' ''/site/index.html''
           (map of_char ''<script type=importmap src=/n.json>{}</script>'')
           (sample_host\<lparr>fetch := two_fetch,
                        registry := [''/site/m.json'' \<mapsto> ''{}''],
                        log := [ImportCalled ''/site/m.json'', FileRead ''/site/m.json'']\<rparr>))
       = Inr (map of_char (''<script type=importmap>'' @ changed_map @ ''</script>''))"
    by (simp add: sample_defs site_defs transform_defs path_defs)
  have differ: "''<script type=importmap src=/n.json>{}</script>''
                  \<noteq> ''<script type=importmap>'' @ changed_map @ ''</script>''"
    by (simp add: changed_map_def)
  from first second differ show ?thesis
    by simp
qed

text \<open>
  C10, as stated, fails: the sample page is served as a stream and its import map
  cannot be loaded; the middleware throws, and the body of the response is the stream
  read to its end, not the stream as the pipeline left it.
\<close>

theorem drained_stream_counterexample:
  "fst (createMiddleware sample_engine sample_options sample_next
          (sample_ctx\<lparr>response_body := BReadStream sample_stream\<rparr>)
          (sample_host\<lparr>fetch := empty_fetch\<rparr>))
     = Threw ReferenceLoadFailure
   \<and> response_body (fst (snd (createMiddleware sample_engine sample_options sample_next
          (sample_ctx\<lparr>response_body := BReadStream sample_stream\<rparr>)
          (sample_host\<lparr>fetch := empty_fetch\<rparr>))))
     = BReadStream (drained sample_stream)
   \<and> drained sample_stream \<noteq> sample_stream"
proof -
  have thrown: "fst (createMiddleware sample_engine sample_options sample_next
          (sample_ctx\<lparr>response_body := BReadStream sample_stream\<rparr>)
          (sample_host\<lparr>fetch := empty_fetch\<rparr>))
     = Threw ReferenceLoadFailure"
    by (simp add: sample_defs site_defs transform_defs path_defs middleware_defs char_of_eq_iff
        byte_of_char_of)
  have body: "response_body (fst (snd (createMiddleware sample_engine sample_options sample_next
          (sample_ctx\<lparr>response_body := BReadStream sample_stream\<rparr>)
          (sample_host\<lparr>fetch := empty_fetch\<rparr>))))
     = BReadStream (drained sample_stream)"
    by (simp add: sample_defs site_defs transform_defs path_defs middleware_defs char_of_eq_iff
        byte_of_char_of)
  have "consumed (drained sample_stream) \<noteq> consumed sample_stream"
    by (simp add: drained_def sample_stream_def)
  then have differ: "drained sample_stream \<noteq> sample_stream"
    by auto
  from thrown body differ show ?thesis
    by simp
qed

text \<open>
  C10, amended. When the rest of the pipeline has returned and the middleware throws (a
  failed load, a failed parse, a stream error, an unsupported body), no body and no
  type has been assigned: the type is the one that the pipeline left, and so is the
  body, except that a streamed body has been read to its end. Body and type are
  assigned only after the transform has returned.
\<close>

theorem error_leaves_response:
  assumes "next c0 h0 = (Returned, c, h)"
    and "createMiddleware eng opts next c0 h0 = (Threw e, c', h')"
  shows "c' = after_read c
       \<and> response_type c' = response_type c
       \<and> ((\<forall>stream. response_body c \<noteq> BReadStream stream) \<longrightarrow> c' = c)"
proof -
  from assms have "after_next eng opts c h = (Threw e, c', h')"
    by (simp add: createMiddleware_def)
  then have c': "c' = after_read c"
    by (rule after_next_error)
  have "response_type (after_read c) = response_type c"
    by (cases "response_body c") (simp_all add: after_read_def)
  with c' after_read_other [of c] show ?thesis
    by simp
qed

theorem error_leaves_response_witness:
  "sample_next sample_ctx (sample_host\<lparr>fetch := empty_fetch\<rparr>)
     = (Returned, sample_ctx, sample_host\<lparr>fetch := empty_fetch\<rparr>)
   \<and> fst (createMiddleware sample_engine sample_options sample_next sample_ctx
            (sample_host\<lparr>fetch := empty_fetch\<rparr>)) = Threw ReferenceLoadFailure
   \<and> (\<forall>stream. response_body sample_ctx \<noteq> BReadStream stream)
   \<and> fst (snd (createMiddleware sample_engine sample_options sample_next sample_ctx
            (sample_host\<lparr>fetch := empty_fetch\<rparr>))) = sample_ctx"
proof -
  let ?h = "sample_host\<lparr>fetch := empty_fetch\<rparr>"
  have n: "sample_next sample_ctx ?h = (Returned, sample_ctx, ?h)"
    by (simp add: sample_next_def)
  have e: "fst (createMiddleware sample_engine sample_options sample_next sample_ctx ?h)
             = Threw ReferenceLoadFailure"
    by (simp add: sample_defs site_defs transform_defs path_defs middleware_defs)
  have s: "\<forall>stream. response_body sample_ctx \<noteq> BReadStream stream"
    by (simp add: sample_ctx_def)
  from e obtain c' h' where
    res: "createMiddleware sample_engine sample_options sample_next sample_ctx ?h
            = (Threw ReferenceLoadFailure, c', h')"
    by (cases "createMiddleware sample_engine sample_options sample_next sample_ctx ?h") auto
  from error_leaves_response [OF n res] s have "c' = sample_ctx"
    by blast
  with n e s res show ?thesis
    by simp
qed

end
